theory Spec2Isabelle
  imports Complex_Main
begin

section \<open>HighsPostsolveStack: the reduction record and its replay\<close>

text \<open>
  A shallow embedding of \<^verbatim>\<open>src/presolve/HighsPostsolveStack.h\<close>. Every member
  function becomes a function on an explicit \<open>HighsPostsolveStack\<close> state that returns
  either an error or the updated state. \<^verbatim>\<open>int\<close> indices are modelled as \<open>int\<close> (they are
  only stored, compared and used as subscripts, never added), a \<^verbatim>\<open>std::vector\<close> as a
  list, and a subscript outside the vector (undefined behaviour in C++) as the error
  \<open>OutOfRange\<close>. \<^verbatim>\<open>assert\<close> is modelled as checked: a failing assertion is the error
  \<open>AssertionFailed\<close>.
\<close>

subsection \<open>Errors\<close>

datatype error = AssertionFailed | OutOfRange | LengthError | StackMismatch

definition bindE :: "error + 'a \<Rightarrow> ('a \<Rightarrow> error + 'b) \<Rightarrow> error + 'b" where
  "bindE m f = (case m of Inl e \<Rightarrow> Inl e | Inr x \<Rightarrow> f x)"

text \<open>\<open>v[i]\<close> for a vector \<open>v\<close> and an \<^verbatim>\<open>int\<close> subscript.\<close>

definition vec_at :: "'a list \<Rightarrow> int \<Rightarrow> error + 'a" where
  "vec_at v i = (if 0 \<le> i \<and> nat i < length v then Inr (v ! nat i) else Inl OutOfRange)"

subsection \<open>Values\<close>

text \<open>
  A \<^verbatim>\<open>double\<close> is either a finite value or one of the three kinds of non-finite value.
  The header only copies doubles, compares two of them with \<^verbatim>\<open><\<close> and tests
  \<^verbatim>\<open>std::isfinite\<close>, so the finite values are abstracted to reals.
\<close>

datatype double = Finite real | PlusInf | MinusInf | NaN

fun isfinite :: "double \<Rightarrow> bool" where
  "isfinite (Finite x) = True"
| "isfinite PlusInf = False"
| "isfinite MinusInf = False"
| "isfinite NaN = False"

text \<open>The comparison \<^verbatim>\<open>a < b\<close> of two doubles: false whenever one of them is a NaN.\<close>

fun dless :: "double \<Rightarrow> double \<Rightarrow> bool" where
  "dless (Finite a) (Finite b) = (a < b)"
| "dless NaN b = False"
| "dless a NaN = False"
| "dless a MinusInf = False"
| "dless PlusInf b = False"
| "dless MinusInf b = True"
| "dless a PlusInf = True"

datatype RowType = Geq | Leq | Eq

text \<open>
  Modelled from the spec: \<^verbatim>\<open>HighsBasisStatus\<close> is declared in \<^verbatim>\<open>lp_data/HConst.h\<close>, which is
  not part of the sources at hand. The spec gives its values as the closed set
  BASIC, LOWER, UPPER, ZERO, NONBASIC.
\<close>

datatype HighsBasisStatus = BASIC | LOWER | UPPER | ZERO | NONBASIC

text \<open>
  Modelled from the spec: \<^verbatim>\<open>HighsSolution\<close> and \<^verbatim>\<open>HighsBasis\<close> are declared in
  \<^verbatim>\<open>lp_data/HStruct.h\<close>, which is not part of the sources at hand. These are the fields the
  header reads and writes.
\<close>

record HighsSolution =
  col_value :: "double list"
  col_dual :: "double list"
  row_value :: "double list"
  row_dual :: "double list"

record HighsBasis =
  col_status :: "HighsBasisStatus list"
  row_status :: "HighsBasisStatus list"

text \<open>A vector of \<^verbatim>\<open>std::pair<int, double>\<close>: the nonzeros of a row or of a column.\<close>

type_synonym nonzeros = "(int \<times> double) list"

subsection \<open>Reduction descriptors\<close>

text \<open>
  The structs of the header, with the fields in the order of declaration, so that a
  constructor application reads like the aggregate initialisation of the source. The
  selector \<open>S_f\<close> is the field \<open>f\<close> of the struct \<open>S\<close>. The struct \<open>ForcingColumn\<close> of the
  header is never pushed, popped or tagged and is left out.
\<close>

datatype FreeColSubstitution = FreeColSubstitution
  (FreeColSubstitution_rhs: double)
  (FreeColSubstitution_colCost: double)
  (FreeColSubstitution_row: int)
  (FreeColSubstitution_col: int)
  (FreeColSubstitution_rowType: RowType)

datatype DoubletonEquation = DoubletonEquation
  (DoubletonEquation_coef: double)
  (DoubletonEquation_coefSubst: double)
  (DoubletonEquation_rhs: double)
  (DoubletonEquation_substLower: double)
  (DoubletonEquation_substUpper: double)
  (DoubletonEquation_substCost: double)
  (DoubletonEquation_row: int)
  (DoubletonEquation_colSubst: int)
  (DoubletonEquation_col: int)
  (DoubletonEquation_lowerTightened: bool)
  (DoubletonEquation_upperTightened: bool)

datatype EqualityRowAddition = EqualityRowAddition
  (EqualityRowAddition_row: int)
  (EqualityRowAddition_addedEqRow: int)
  (EqualityRowAddition_eqRowScale: double)

datatype SingletonRow = SingletonRow
  (SingletonRow_coef: double)
  (SingletonRow_row: int)
  (SingletonRow_col: int)
  (SingletonRow_colLowerTightened: bool)
  (SingletonRow_colUpperTightened: bool)

datatype FixedCol = FixedCol
  (FixedCol_fixValue: double)
  (FixedCol_colCost: double)
  (FixedCol_col: int)
  (FixedCol_fixType: HighsBasisStatus)

datatype RedundantRow = RedundantRow
  (RedundantRow_row: int)

datatype ForcingRow = ForcingRow
  (ForcingRow_side: double)
  (ForcingRow_row: int)
  (ForcingRow_rowType: RowType)

datatype DuplicateRow = DuplicateRow
  (DuplicateRow_duplicateRowScale: double)
  (DuplicateRow_duplicateRow: int)
  (DuplicateRow_row: int)
  (DuplicateRow_rowLowerTightened: bool)
  (DuplicateRow_rowUpperTightened: bool)

datatype DuplicateColumn = DuplicateColumn
  (DuplicateColumn_colScale: double)
  (DuplicateColumn_colLower: double)
  (DuplicateColumn_colUpper: double)
  (DuplicateColumn_duplicateColLower: double)
  (DuplicateColumn_duplicateColUpper: double)
  (DuplicateColumn_col: int)
  (DuplicateColumn_duplicateCol: int)
  (DuplicateColumn_colIntegral: bool)
  (DuplicateColumn_duplicateColIntegral: bool)

datatype ReductionType =
  kFreeColSubstitution
| kDoubletonEquation
| kEqualityRowAddition
| kSingletonRow
| kFixedCol
| kRedundantRow
| kForcingRow
| kDuplicateRow
| kDuplicateColumn

subsection \<open>The value stack\<close>

text \<open>
  Modelled from the spec: \<^verbatim>\<open>HighsDataStack\<close> is declared in \<^verbatim>\<open>util/HighsDataStack.h\<close>,
  which is not part of the sources at hand. The spec describes a LIFO store of
  heterogeneous values with a logical read cursor: \<open>push\<close> appends a value of a
  fixed-size type or a sequence of pairs, \<open>pop\<close> reads the value below the cursor and
  moves the cursor down, and \<open>resetPosition\<close> rewinds the cursor to the top of the
  stack without discarding data. A pop at the bottom of the stack, or of a type other
  than the one pushed, is a programming error: the error \<open>StackMismatch\<close>.
\<close>

datatype stack_item =
  PFreeColSubstitution FreeColSubstitution
| PDoubletonEquation DoubletonEquation
| PEqualityRowAddition EqualityRowAddition
| PSingletonRow SingletonRow
| PFixedCol FixedCol
| PRedundantRow RedundantRow
| PForcingRow ForcingRow
| PDuplicateRow DuplicateRow
| PDuplicateColumn DuplicateColumn
| PVector nonzeros

record HighsDataStack =
  data :: "stack_item list"
  position :: nat

definition push :: "stack_item \<Rightarrow> HighsDataStack \<Rightarrow> HighsDataStack" where
  "push x s = s\<lparr>data := data s @ [x]\<rparr>"

definition resetPosition :: "HighsDataStack \<Rightarrow> HighsDataStack" where
  "resetPosition s = s\<lparr>position := length (data s)\<rparr>"

definition pop :: "HighsDataStack \<Rightarrow> error + (stack_item \<times> HighsDataStack)" where
  "pop s =
     (if position s = 0 \<or> length (data s) < position s then Inl StackMismatch
      else Inr (data s ! (position s - 1), s\<lparr>position := position s - 1\<rparr>))"

fun the_FreeColSubstitution :: "stack_item \<Rightarrow> error + FreeColSubstitution" where
  "the_FreeColSubstitution (PFreeColSubstitution d) = Inr d"
| "the_FreeColSubstitution x = Inl StackMismatch"

fun the_DoubletonEquation :: "stack_item \<Rightarrow> error + DoubletonEquation" where
  "the_DoubletonEquation (PDoubletonEquation d) = Inr d"
| "the_DoubletonEquation x = Inl StackMismatch"

fun the_EqualityRowAddition :: "stack_item \<Rightarrow> error + EqualityRowAddition" where
  "the_EqualityRowAddition (PEqualityRowAddition d) = Inr d"
| "the_EqualityRowAddition x = Inl StackMismatch"

fun the_SingletonRow :: "stack_item \<Rightarrow> error + SingletonRow" where
  "the_SingletonRow (PSingletonRow d) = Inr d"
| "the_SingletonRow x = Inl StackMismatch"

fun the_FixedCol :: "stack_item \<Rightarrow> error + FixedCol" where
  "the_FixedCol (PFixedCol d) = Inr d"
| "the_FixedCol x = Inl StackMismatch"

fun the_RedundantRow :: "stack_item \<Rightarrow> error + RedundantRow" where
  "the_RedundantRow (PRedundantRow d) = Inr d"
| "the_RedundantRow x = Inl StackMismatch"

fun the_ForcingRow :: "stack_item \<Rightarrow> error + ForcingRow" where
  "the_ForcingRow (PForcingRow d) = Inr d"
| "the_ForcingRow x = Inl StackMismatch"

fun the_DuplicateRow :: "stack_item \<Rightarrow> error + DuplicateRow" where
  "the_DuplicateRow (PDuplicateRow d) = Inr d"
| "the_DuplicateRow x = Inl StackMismatch"

fun the_DuplicateColumn :: "stack_item \<Rightarrow> error + DuplicateColumn" where
  "the_DuplicateColumn (PDuplicateColumn d) = Inr d"
| "the_DuplicateColumn x = Inl StackMismatch"

fun the_Vector :: "stack_item \<Rightarrow> error + nonzeros" where
  "the_Vector (PVector v) = Inr v"
| "the_Vector x = Inl StackMismatch"

text \<open>\<open>pop(r)\<close> for a variable \<open>r\<close> of the type that \<open>the_T\<close> selects.\<close>

definition pop_as ::
  "(stack_item \<Rightarrow> error + 'a) \<Rightarrow> HighsDataStack \<Rightarrow> error + ('a \<times> HighsDataStack)" where
  "pop_as the_T s =
     bindE (pop s) (\<lambda>(x, s'). bindE (the_T x) (\<lambda>r. Inr (r, s')))"

subsection \<open>The postsolve stack\<close>

record HighsPostsolveStack =
  reductionValues :: HighsDataStack
  reductions :: "ReductionType list"
  origColIndex :: "int list"
  origRowIndex :: "int list"
  rowValues :: nonzeros
  colValues :: nonzeros
  origNumCol :: int
  origNumRow :: int

definition getOrigRowIndex :: "HighsPostsolveStack \<Rightarrow> int \<Rightarrow> error + int" where
  "getOrigRowIndex st row = vec_at (origRowIndex st) row"

definition getOrigColIndex :: "HighsPostsolveStack \<Rightarrow> int \<Rightarrow> error + int" where
  "getOrigColIndex st col = vec_at (origColIndex st) col"

definition numReductions :: "HighsPostsolveStack \<Rightarrow> nat" where
  "numReductions st = length (reductions st)"

subsection \<open>Recording operations\<close>

text \<open>
  A \<^verbatim>\<open>HighsMatrixSlice\<close> is consumed only by iterating over its nonzeros, so it is
  modelled as the list of \<open>(index, value)\<close> pairs the iteration yields. The loop
  \<^verbatim>\<open>for (nz : vec) values.emplace_back(origIndex[nz.index()], nz.value())\<close>:
\<close>

fun translate :: "int list \<Rightarrow> nonzeros \<Rightarrow> error + nonzeros" where
  "translate origIndex [] = Inr []"
| "translate origIndex ((i, v) # vec) =
     bindE (vec_at origIndex i) (\<lambda>j.
     bindE (translate origIndex vec) (\<lambda>values. Inr ((j, v) # values)))"

definition freeColSubstitution ::
  "HighsPostsolveStack \<Rightarrow> int \<Rightarrow> int \<Rightarrow> double \<Rightarrow> double \<Rightarrow> RowType \<Rightarrow> nonzeros \<Rightarrow> nonzeros
   \<Rightarrow> error + HighsPostsolveStack" where
  "freeColSubstitution st row col rhs colCost rowType rowVec colVec =
     bindE (translate (origColIndex st) rowVec) (\<lambda>rowValues'.
     bindE (translate (origRowIndex st) colVec) (\<lambda>colValues'.
     bindE (vec_at (origRowIndex st) row) (\<lambda>r.
     bindE (vec_at (origColIndex st) col) (\<lambda>c.
       Inr (st\<lparr>rowValues := rowValues', colValues := colValues',
              reductionValues :=
                push (PVector colValues') (push (PVector rowValues')
                  (push (PFreeColSubstitution (FreeColSubstitution rhs colCost r c rowType))
                     (reductionValues st))),
              reductions := reductions st @ [kFreeColSubstitution]\<rparr>)))))"

definition doubletonEquation ::
  "HighsPostsolveStack \<Rightarrow> int \<Rightarrow> int \<Rightarrow> int \<Rightarrow> double \<Rightarrow> double \<Rightarrow> double \<Rightarrow> double \<Rightarrow> double
   \<Rightarrow> double \<Rightarrow> double \<Rightarrow> double \<Rightarrow> double \<Rightarrow> double \<Rightarrow> nonzeros
   \<Rightarrow> error + HighsPostsolveStack" where
  "doubletonEquation st row colSubst col coefSubst coef rhs substLower substUpper
       oldLower oldUpper newLower newUpper substCost colVec =
     bindE (translate (origRowIndex st) colVec) (\<lambda>colValues'.
     bindE (vec_at (origRowIndex st) row) (\<lambda>r.
     bindE (vec_at (origColIndex st) colSubst) (\<lambda>cs.
     bindE (vec_at (origColIndex st) col) (\<lambda>c.
       Inr (st\<lparr>colValues := colValues',
              reductionValues :=
                push (PVector colValues')
                  (push (PDoubletonEquation
                     (DoubletonEquation coef coefSubst rhs substLower substUpper substCost
                        r cs c (dless oldLower newLower) (dless newUpper oldUpper)))
                     (reductionValues st)),
              reductions := reductions st @ [kDoubletonEquation]\<rparr>)))))"

definition equalityRowAddition ::
  "HighsPostsolveStack \<Rightarrow> int \<Rightarrow> int \<Rightarrow> double \<Rightarrow> error + HighsPostsolveStack" where
  "equalityRowAddition st row addedEqRow eqRowScale =
     bindE (vec_at (origRowIndex st) row) (\<lambda>r.
     bindE (vec_at (origRowIndex st) addedEqRow) (\<lambda>a.
       Inr (st\<lparr>reductionValues :=
                push (PEqualityRowAddition (EqualityRowAddition r a eqRowScale))
                  (reductionValues st),
              reductions := reductions st @ [kEqualityRowAddition]\<rparr>)))"

definition singletonRow ::
  "HighsPostsolveStack \<Rightarrow> int \<Rightarrow> int \<Rightarrow> double \<Rightarrow> bool \<Rightarrow> bool \<Rightarrow> error + HighsPostsolveStack" where
  "singletonRow st row col coef tightenedColLower tightenedColUpper =
     bindE (vec_at (origRowIndex st) row) (\<lambda>r.
     bindE (vec_at (origColIndex st) col) (\<lambda>c.
       Inr (st\<lparr>reductionValues :=
                push (PSingletonRow (SingletonRow coef r c tightenedColLower tightenedColUpper))
                  (reductionValues st),
              reductions := reductions st @ [kSingletonRow]\<rparr>)))"

definition fixedColAtLower ::
  "HighsPostsolveStack \<Rightarrow> int \<Rightarrow> double \<Rightarrow> double \<Rightarrow> nonzeros \<Rightarrow> error + HighsPostsolveStack" where
  "fixedColAtLower st col fixValue colCost colVec =
     (if \<not> isfinite fixValue then Inl AssertionFailed
      else
        bindE (translate (origRowIndex st) colVec) (\<lambda>colValues'.
        bindE (vec_at (origColIndex st) col) (\<lambda>c.
          Inr (st\<lparr>colValues := colValues',
                 reductionValues :=
                   push (PVector colValues')
                     (push (PFixedCol (FixedCol fixValue colCost c LOWER)) (reductionValues st)),
                 reductions := reductions st @ [kFixedCol]\<rparr>))))"

definition fixedColAtUpper ::
  "HighsPostsolveStack \<Rightarrow> int \<Rightarrow> double \<Rightarrow> double \<Rightarrow> nonzeros \<Rightarrow> error + HighsPostsolveStack" where
  "fixedColAtUpper st col fixValue colCost colVec =
     (if \<not> isfinite fixValue then Inl AssertionFailed
      else
        bindE (translate (origRowIndex st) colVec) (\<lambda>colValues'.
        bindE (vec_at (origColIndex st) col) (\<lambda>c.
          Inr (st\<lparr>colValues := colValues',
                 reductionValues :=
                   push (PVector colValues')
                     (push (PFixedCol (FixedCol fixValue colCost c UPPER)) (reductionValues st)),
                 reductions := reductions st @ [kFixedCol]\<rparr>))))"

definition removedFixedCol ::
  "HighsPostsolveStack \<Rightarrow> int \<Rightarrow> double \<Rightarrow> double \<Rightarrow> nonzeros \<Rightarrow> error + HighsPostsolveStack" where
  "removedFixedCol st col fixValue colCost colVec =
     (if \<not> isfinite fixValue then Inl AssertionFailed
      else
        bindE (translate (origRowIndex st) colVec) (\<lambda>colValues'.
        bindE (vec_at (origColIndex st) col) (\<lambda>c.
          Inr (st\<lparr>colValues := colValues',
                 reductionValues :=
                   push (PVector colValues')
                     (push (PFixedCol (FixedCol fixValue colCost c NONBASIC)) (reductionValues st)),
                 reductions := reductions st @ [kFixedCol]\<rparr>))))"

definition redundantRow :: "HighsPostsolveStack \<Rightarrow> int \<Rightarrow> error + HighsPostsolveStack" where
  "redundantRow st row =
     Inr (st\<lparr>reductionValues := push (PRedundantRow (RedundantRow row)) (reductionValues st),
            reductions := reductions st @ [kRedundantRow]\<rparr>)"

definition forcingRow ::
  "HighsPostsolveStack \<Rightarrow> int \<Rightarrow> nonzeros \<Rightarrow> double \<Rightarrow> RowType \<Rightarrow> error + HighsPostsolveStack" where
  "forcingRow st row rowVec side rowType =
     bindE (translate (origColIndex st) rowVec) (\<lambda>rowValues'.
     bindE (vec_at (origRowIndex st) row) (\<lambda>r.
       Inr (st\<lparr>rowValues := rowValues',
              reductionValues :=
                push (PVector rowValues')
                  (push (PForcingRow (ForcingRow side r rowType)) (reductionValues st)),
              reductions := reductions st @ [kForcingRow]\<rparr>)))"

definition duplicateRow ::
  "HighsPostsolveStack \<Rightarrow> int \<Rightarrow> bool \<Rightarrow> bool \<Rightarrow> int \<Rightarrow> double \<Rightarrow> error + HighsPostsolveStack" where
  "duplicateRow st row rowUpperTightened rowLowerTightened duplicateRow' duplicateRowScale =
     bindE (vec_at (origRowIndex st) duplicateRow') (\<lambda>d.
     bindE (vec_at (origRowIndex st) row) (\<lambda>r.
       Inr (st\<lparr>reductionValues :=
                push (PDuplicateRow
                   (DuplicateRow duplicateRowScale d r rowLowerTightened rowUpperTightened))
                  (reductionValues st),
              reductions := reductions st @ [kDuplicateRow]\<rparr>)))"

definition duplicateColumn ::
  "HighsPostsolveStack \<Rightarrow> double \<Rightarrow> double \<Rightarrow> double \<Rightarrow> double \<Rightarrow> double \<Rightarrow> int \<Rightarrow> int \<Rightarrow> bool \<Rightarrow> bool
   \<Rightarrow> error + HighsPostsolveStack" where
  "duplicateColumn st colScale colLower colUpper duplicateColLower duplicateColUpper
       col duplicateCol colIntegral duplicateColIntegral =
     bindE (vec_at (origColIndex st) col) (\<lambda>c.
     bindE (vec_at (origColIndex st) duplicateCol) (\<lambda>d.
       Inr (st\<lparr>reductionValues :=
                push (PDuplicateColumn
                   (DuplicateColumn colScale colLower colUpper duplicateColLower
                      duplicateColUpper c d colIntegral duplicateColIntegral))
                  (reductionValues st),
              reductions := reductions st @ [kDuplicateColumn]\<rparr>)))"

subsection \<open>Replay\<close>

type_synonym lifted = "HighsSolution \<times> HighsBasis"

text \<open>
  The header declares the \<open>undo\<close> member of each descriptor and defines none of them,
  and \<^verbatim>\<open>std::vector::resize\<close> fills new slots of a vector of \<^verbatim>\<open>HighsBasisStatus\<close> with
  the enumerator of value zero, which \<^verbatim>\<open>lp_data/HConst.h\<close> fixes. Both are taken as
  parameters: the replay is verified for every choice of them.
\<close>

record external =
  FreeColSubstitution_undo :: "FreeColSubstitution \<Rightarrow> nonzeros \<Rightarrow> nonzeros \<Rightarrow> lifted \<Rightarrow> lifted"
  DoubletonEquation_undo :: "DoubletonEquation \<Rightarrow> nonzeros \<Rightarrow> lifted \<Rightarrow> lifted"
  EqualityRowAddition_undo :: "EqualityRowAddition \<Rightarrow> lifted \<Rightarrow> lifted"
  SingletonRow_undo :: "SingletonRow \<Rightarrow> lifted \<Rightarrow> lifted"
  FixedCol_undo :: "FixedCol \<Rightarrow> nonzeros \<Rightarrow> lifted \<Rightarrow> lifted"
  RedundantRow_undo :: "RedundantRow \<Rightarrow> lifted \<Rightarrow> lifted"
  ForcingRow_undo :: "ForcingRow \<Rightarrow> nonzeros \<Rightarrow> lifted \<Rightarrow> lifted"
  DuplicateRow_undo :: "DuplicateRow \<Rightarrow> lifted \<Rightarrow> lifted"
  DuplicateColumn_undo :: "DuplicateColumn \<Rightarrow> lifted \<Rightarrow> double \<Rightarrow> lifted"
  HighsBasisStatus_zero :: HighsBasisStatus

text \<open>\<^verbatim>\<open>for (int i = start; i >= stop; --i) body(i)\<close>, stopping at the first error.\<close>

function for_down :: "int \<Rightarrow> int \<Rightarrow> (int \<Rightarrow> 's \<Rightarrow> error + 's) \<Rightarrow> 's \<Rightarrow> error + 's" where
  "for_down i stop body s =
     (if stop \<le> i
      then (case body i s of Inl e \<Rightarrow> Inl e | Inr s' \<Rightarrow> for_down (i - 1) stop body s')
      else Inr s)"
  by pat_completeness auto
termination
  by (relation "measure (\<lambda>(i, stop, body, s). nat (i + 1 - stop))") auto

declare for_down.simps [simp del]

text \<open>
  \<^verbatim>\<open>v.resize(n)\<close> for an \<^verbatim>\<open>int\<close> \<open>n\<close>: new slots are value-initialised to \<open>zero\<close>; a
  negative \<open>n\<close> converts to a size beyond \<^verbatim>\<open>max_size()\<close> and throws.
\<close>

definition resize :: "'a \<Rightarrow> int \<Rightarrow> 'a list \<Rightarrow> error + 'a list" where
  "resize zero n v =
     (if n < 0 then Inl LengthError
      else Inr (take (nat n) v @ replicate (nat n - length v) zero))"

text \<open>\<^verbatim>\<open>v[origIndex[i]] = v[i]\<close>\<close>

definition lift_entry :: "int list \<Rightarrow> int \<Rightarrow> 'a list \<Rightarrow> error + 'a list" where
  "lift_entry origIndex i v =
     bindE (vec_at origIndex i) (\<lambda>j.
     bindE (vec_at v i) (\<lambda>x.
       if 0 \<le> j \<and> nat j < length v then Inr (v[nat j := x]) else Inl OutOfRange))"

text \<open>\<^verbatim>\<open>assert(origIndex[i] >= i)\<close>\<close>

definition assert_not_below :: "int list \<Rightarrow> int \<Rightarrow> error + unit" where
  "assert_not_below origIndex i =
     bindE (vec_at origIndex i) (\<lambda>j. if i \<le> j then Inr () else Inl AssertionFailed)"

text \<open>
  The expansion of \<open>col_value\<close> (lines 332 to 336) and of \<open>row_value\<close> (lines 338 to
  342): the resize and the loop from the last reduced index down to 0.
\<close>

definition expand_values :: "int list \<Rightarrow> int \<Rightarrow> double list \<Rightarrow> error + double list" where
  "expand_values origIndex origNum v =
     bindE (resize (Finite 0) origNum v) (\<lambda>v1.
       for_down (int (length origIndex) - 1) 0
         (\<lambda>i v'. bindE (assert_not_below origIndex i) (\<lambda>_. lift_entry origIndex i v')) v1)"

text \<open>
  The expansion of a status vector and a dual vector (lines 347 to 352 and 354 to 359):
  both are resized, then one loop moves the entries of both.
\<close>

definition expand_duals ::
  "HighsBasisStatus \<Rightarrow> int list \<Rightarrow> int \<Rightarrow> HighsBasisStatus list \<Rightarrow> double list
   \<Rightarrow> error + (HighsBasisStatus list \<times> double list)" where
  "expand_duals zero origIndex origNum status dual =
     bindE (resize (Finite 0) origNum dual) (\<lambda>dual1.
     bindE (resize zero origNum status) (\<lambda>status1.
       for_down (int (length origIndex) - 1) 0
         (\<lambda>i (status', dual').
            bindE (lift_entry origIndex i status') (\<lambda>status''.
            bindE (lift_entry origIndex i dual') (\<lambda>dual''. Inr (status'', dual''))))
         (status1, dual1)))"

text \<open>
  The preamble of \<open>undo\<close> and \<open>undoUntil\<close> after the two guards (lines 329 to 360 and
  434 to 465, which are the same text).
\<close>

definition expand :: "HighsBasisStatus \<Rightarrow> HighsPostsolveStack \<Rightarrow> lifted \<Rightarrow> error + lifted" where
  "expand zero st = (\<lambda>(solution, basis).
     let dualPostSolve = (length (col_dual solution) = length (col_value solution)) in
     bindE (expand_values (origColIndex st) (origNumCol st) (col_value solution)) (\<lambda>cv.
     bindE (expand_values (origRowIndex st) (origNumRow st) (row_value solution)) (\<lambda>rv.
       if dualPostSolve then
         bindE (expand_duals zero (origColIndex st) (origNumCol st)
                  (col_status basis) (col_dual solution)) (\<lambda>(cs, cd).
         bindE (expand_duals zero (origRowIndex st) (origNumRow st)
                  (row_status basis) (row_dual solution)) (\<lambda>(rs, rd).
           Inr (solution\<lparr>col_value := cv, row_value := rv, col_dual := cd, row_dual := rd\<rparr>,
                basis\<lparr>col_status := cs, row_status := rs\<rparr>)))
       else Inr (solution\<lparr>col_value := cv, row_value := rv\<rparr>, basis))))"

text \<open>
  The body of the \<^verbatim>\<open>switch\<close> (lines 364 to 423 and 469 to 528, which are the same
  text): the pops into the members \<open>colValues\<close> and \<open>rowValues\<close> and into the local
  \<open>reduction\<close>, then the call of the descriptor's \<open>undo\<close>.
\<close>

fun dispatch ::
  "external \<Rightarrow> double \<Rightarrow> ReductionType \<Rightarrow> HighsPostsolveStack \<times> lifted
   \<Rightarrow> error + (HighsPostsolveStack \<times> lifted)" where
  "dispatch X feastol kFreeColSubstitution (st, sb) =
     bindE (pop_as the_Vector (reductionValues st)) (\<lambda>(cv, s1).
     bindE (pop_as the_Vector s1) (\<lambda>(rv, s2).
     bindE (pop_as the_FreeColSubstitution s2) (\<lambda>(reduction, s3).
       Inr (st\<lparr>colValues := cv, rowValues := rv, reductionValues := s3\<rparr>,
            FreeColSubstitution_undo X reduction rv cv sb))))"
| "dispatch X feastol kDoubletonEquation (st, sb) =
     bindE (pop_as the_Vector (reductionValues st)) (\<lambda>(cv, s1).
     bindE (pop_as the_DoubletonEquation s1) (\<lambda>(reduction, s2).
       Inr (st\<lparr>colValues := cv, reductionValues := s2\<rparr>,
            DoubletonEquation_undo X reduction cv sb)))"
| "dispatch X feastol kEqualityRowAddition (st, sb) =
     bindE (pop_as the_EqualityRowAddition (reductionValues st)) (\<lambda>(reduction, s1).
       Inr (st\<lparr>reductionValues := s1\<rparr>, EqualityRowAddition_undo X reduction sb))"
| "dispatch X feastol kSingletonRow (st, sb) =
     bindE (pop_as the_SingletonRow (reductionValues st)) (\<lambda>(reduction, s1).
       Inr (st\<lparr>reductionValues := s1\<rparr>, SingletonRow_undo X reduction sb))"
| "dispatch X feastol kFixedCol (st, sb) =
     bindE (pop_as the_Vector (reductionValues st)) (\<lambda>(cv, s1).
     bindE (pop_as the_FixedCol s1) (\<lambda>(reduction, s2).
       Inr (st\<lparr>colValues := cv, reductionValues := s2\<rparr>,
            FixedCol_undo X reduction cv sb)))"
| "dispatch X feastol kRedundantRow (st, sb) =
     bindE (pop_as the_RedundantRow (reductionValues st)) (\<lambda>(reduction, s1).
       Inr (st\<lparr>reductionValues := s1\<rparr>, RedundantRow_undo X reduction sb))"
| "dispatch X feastol kForcingRow (st, sb) =
     bindE (pop_as the_Vector (reductionValues st)) (\<lambda>(rv, s1).
     bindE (pop_as the_ForcingRow s1) (\<lambda>(reduction, s2).
       Inr (st\<lparr>rowValues := rv, reductionValues := s2\<rparr>,
            ForcingRow_undo X reduction rv sb)))"
| "dispatch X feastol kDuplicateRow (st, sb) =
     bindE (pop_as the_DuplicateRow (reductionValues st)) (\<lambda>(reduction, s1).
       Inr (st\<lparr>reductionValues := s1\<rparr>, DuplicateRow_undo X reduction sb))"
| "dispatch X feastol kDuplicateColumn (st, sb) =
     bindE (pop_as the_DuplicateColumn (reductionValues st)) (\<lambda>(reduction, s1).
       Inr (st\<lparr>reductionValues := s1\<rparr>, DuplicateColumn_undo X reduction sb feastol))"

text \<open>
  The replay loop \<^verbatim>\<open>for (int i = reductions.size() - 1; i >= stop; --i)\<close>, with
  \<open>stop\<close> being 0 in \<open>undo\<close> and \<open>numReductions\<close> in \<open>undoUntil\<close>.
\<close>

definition replay ::
  "external \<Rightarrow> double \<Rightarrow> int \<Rightarrow> HighsPostsolveStack \<times> lifted
   \<Rightarrow> error + (HighsPostsolveStack \<times> lifted)" where
  "replay X feastol stop = (\<lambda>(st, sb).
     for_down (int (length (reductions st)) - 1) stop
       (\<lambda>i (st', sb'). bindE (vec_at (reductions st') i) (\<lambda>t. dispatch X feastol t (st', sb')))
       (st, sb))"

definition undo ::
  "external \<Rightarrow> HighsPostsolveStack \<Rightarrow> HighsSolution \<Rightarrow> HighsBasis \<Rightarrow> double
   \<Rightarrow> error + (HighsPostsolveStack \<times> lifted)" where
  "undo X st solution basis feastol =
     (let st1 = st\<lparr>reductionValues := resetPosition (reductionValues st)\<rparr> in
      if length (col_value solution) \<noteq> length (origColIndex st1) then Inr (st1, solution, basis)
      else if length (row_value solution) \<noteq> length (origRowIndex st1)
      then Inr (st1, solution, basis)
      else bindE (expand (HighsBasisStatus_zero X) st1 (solution, basis)) (\<lambda>sb.
             replay X feastol 0 (st1, sb)))"

definition undoUntil ::
  "external \<Rightarrow> HighsPostsolveStack \<Rightarrow> HighsSolution \<Rightarrow> HighsBasis \<Rightarrow> double \<Rightarrow> int
   \<Rightarrow> error + (HighsPostsolveStack \<times> lifted)" where
  "undoUntil X st solution basis feastol numReductions' =
     (let st1 = st\<lparr>reductionValues := resetPosition (reductionValues st)\<rparr> in
      if length (col_value solution) \<noteq> length (origColIndex st1) then Inr (st1, solution, basis)
      else if length (row_value solution) \<noteq> length (origRowIndex st1)
      then Inr (st1, solution, basis)
      else bindE (expand (HighsBasisStatus_zero X) st1 (solution, basis)) (\<lambda>sb.
             replay X feastol numReductions' (st1, sb)))"

subsection \<open>Recorded reductions and sequences of recording calls\<close>

text \<open>
  A reduction as it is handed to its \<open>undo\<close>: the descriptor with its row nonzeros and
  column nonzeros, where the kind has them.
\<close>

datatype recorded =
  RFreeColSubstitution FreeColSubstitution nonzeros nonzeros
| RDoubletonEquation DoubletonEquation nonzeros
| REqualityRowAddition EqualityRowAddition
| RSingletonRow SingletonRow
| RFixedCol FixedCol nonzeros
| RRedundantRow RedundantRow
| RForcingRow ForcingRow nonzeros
| RDuplicateRow DuplicateRow
| RDuplicateColumn DuplicateColumn

fun tag_of :: "recorded \<Rightarrow> ReductionType" where
  "tag_of (RFreeColSubstitution d rowNz colNz) = kFreeColSubstitution"
| "tag_of (RDoubletonEquation d colNz) = kDoubletonEquation"
| "tag_of (REqualityRowAddition d) = kEqualityRowAddition"
| "tag_of (RSingletonRow d) = kSingletonRow"
| "tag_of (RFixedCol d colNz) = kFixedCol"
| "tag_of (RRedundantRow d) = kRedundantRow"
| "tag_of (RForcingRow d rowNz) = kForcingRow"
| "tag_of (RDuplicateRow d) = kDuplicateRow"
| "tag_of (RDuplicateColumn d) = kDuplicateColumn"

text \<open>
  The push order the spec states for each kind: the descriptor first, then the row
  nonzeros, then the column nonzeros. The last element of the list is the top of the stack.
\<close>

fun spec_pushed :: "recorded \<Rightarrow> stack_item list" where
  "spec_pushed (RFreeColSubstitution d rowNz colNz) =
     [PFreeColSubstitution d, PVector rowNz, PVector colNz]"
| "spec_pushed (RDoubletonEquation d colNz) = [PDoubletonEquation d, PVector colNz]"
| "spec_pushed (REqualityRowAddition d) = [PEqualityRowAddition d]"
| "spec_pushed (RSingletonRow d) = [PSingletonRow d]"
| "spec_pushed (RFixedCol d colNz) = [PFixedCol d, PVector colNz]"
| "spec_pushed (RRedundantRow d) = [PRedundantRow d]"
| "spec_pushed (RForcingRow d rowNz) = [PForcingRow d, PVector rowNz]"
| "spec_pushed (RDuplicateRow d) = [PDuplicateRow d]"
| "spec_pushed (RDuplicateColumn d) = [PDuplicateColumn d]"

text \<open>The call of the descriptor's \<open>undo\<close> on a recorded reduction.\<close>

fun undo_recorded :: "external \<Rightarrow> double \<Rightarrow> recorded \<Rightarrow> lifted \<Rightarrow> lifted" where
  "undo_recorded X feastol (RFreeColSubstitution d rowNz colNz) sb =
     FreeColSubstitution_undo X d rowNz colNz sb"
| "undo_recorded X feastol (RDoubletonEquation d colNz) sb = DoubletonEquation_undo X d colNz sb"
| "undo_recorded X feastol (REqualityRowAddition d) sb = EqualityRowAddition_undo X d sb"
| "undo_recorded X feastol (RSingletonRow d) sb = SingletonRow_undo X d sb"
| "undo_recorded X feastol (RFixedCol d colNz) sb = FixedCol_undo X d colNz sb"
| "undo_recorded X feastol (RRedundantRow d) sb = RedundantRow_undo X d sb"
| "undo_recorded X feastol (RForcingRow d rowNz) sb = ForcingRow_undo X d rowNz sb"
| "undo_recorded X feastol (RDuplicateRow d) sb = DuplicateRow_undo X d sb"
| "undo_recorded X feastol (RDuplicateColumn d) sb = DuplicateColumn_undo X d sb feastol"

text \<open>A call of one of the twelve recording operations, with its arguments.\<close>

datatype call =
  Call_freeColSubstitution int int double double RowType nonzeros nonzeros
| Call_doubletonEquation int int int double double double double double
    double double double double double nonzeros
| Call_equalityRowAddition int int double
| Call_singletonRow int int double bool bool
| Call_fixedColAtLower int double double nonzeros
| Call_fixedColAtUpper int double double nonzeros
| Call_removedFixedCol int double double nonzeros
| Call_redundantRow int
| Call_forcingRow int nonzeros double RowType
| Call_duplicateRow int bool bool int double
| Call_duplicateColumn double double double double double int int bool bool

fun record_call :: "HighsPostsolveStack \<Rightarrow> call \<Rightarrow> error + HighsPostsolveStack" where
  "record_call st (Call_freeColSubstitution row col rhs colCost rowType rowVec colVec) =
     freeColSubstitution st row col rhs colCost rowType rowVec colVec"
| "record_call st (Call_doubletonEquation row colSubst col coefSubst coef rhs substLower
       substUpper oldLower oldUpper newLower newUpper substCost colVec) =
     doubletonEquation st row colSubst col coefSubst coef rhs substLower substUpper
       oldLower oldUpper newLower newUpper substCost colVec"
| "record_call st (Call_equalityRowAddition row addedEqRow eqRowScale) =
     equalityRowAddition st row addedEqRow eqRowScale"
| "record_call st (Call_singletonRow row col coef tightenedColLower tightenedColUpper) =
     singletonRow st row col coef tightenedColLower tightenedColUpper"
| "record_call st (Call_fixedColAtLower col fixValue colCost colVec) =
     fixedColAtLower st col fixValue colCost colVec"
| "record_call st (Call_fixedColAtUpper col fixValue colCost colVec) =
     fixedColAtUpper st col fixValue colCost colVec"
| "record_call st (Call_removedFixedCol col fixValue colCost colVec) =
     removedFixedCol st col fixValue colCost colVec"
| "record_call st (Call_redundantRow row) = redundantRow st row"
| "record_call st (Call_forcingRow row rowVec side rowType) =
     forcingRow st row rowVec side rowType"
| "record_call st (Call_duplicateRow row rowUpperTightened rowLowerTightened duplicateRow'
       duplicateRowScale) =
     duplicateRow st row rowUpperTightened rowLowerTightened duplicateRow' duplicateRowScale"
| "record_call st (Call_duplicateColumn colScale colLower colUpper duplicateColLower
       duplicateColUpper col duplicateCol colIntegral duplicateColIntegral) =
     duplicateColumn st colScale colLower colUpper duplicateColLower duplicateColUpper
       col duplicateCol colIntegral duplicateColIntegral"

fun record_calls :: "HighsPostsolveStack \<Rightarrow> call list \<Rightarrow> error + HighsPostsolveStack" where
  "record_calls st [] = Inr st"
| "record_calls st (c # cs) = bindE (record_call st c) (\<lambda>st'. record_calls st' cs)"

fun call_tag :: "call \<Rightarrow> ReductionType" where
  "call_tag (Call_freeColSubstitution row col rhs colCost rowType rowVec colVec) =
     kFreeColSubstitution"
| "call_tag (Call_doubletonEquation row colSubst col coefSubst coef rhs substLower
       substUpper oldLower oldUpper newLower newUpper substCost colVec) = kDoubletonEquation"
| "call_tag (Call_equalityRowAddition row addedEqRow eqRowScale) = kEqualityRowAddition"
| "call_tag (Call_singletonRow row col coef tightenedColLower tightenedColUpper) =
     kSingletonRow"
| "call_tag (Call_fixedColAtLower col fixValue colCost colVec) = kFixedCol"
| "call_tag (Call_fixedColAtUpper col fixValue colCost colVec) = kFixedCol"
| "call_tag (Call_removedFixedCol col fixValue colCost colVec) = kFixedCol"
| "call_tag (Call_redundantRow row) = kRedundantRow"
| "call_tag (Call_forcingRow row rowVec side rowType) = kForcingRow"
| "call_tag (Call_duplicateRow row rowUpperTightened rowLowerTightened duplicateRow'
       duplicateRowScale) = kDuplicateRow"
| "call_tag (Call_duplicateColumn colScale colLower colUpper duplicateColLower
       duplicateColUpper col duplicateCol colIntegral duplicateColIntegral) = kDuplicateColumn"

subsection \<open>Index maps\<close>

text \<open>\<open>i\<close> is a valid subscript of \<open>origIndex\<close>.\<close>

definition valid_index :: "int list \<Rightarrow> int \<Rightarrow> bool" where
  "valid_index origIndex i = (0 \<le> i \<and> nat i < length origIndex)"

text \<open>
  An index map into an original space of \<open>origNum\<close> entries: strictly increasing, every
  entry at or above its own position and below \<open>origNum\<close>, which is not negative.
\<close>

definition index_map :: "int list \<Rightarrow> int \<Rightarrow> bool" where
  "index_map origIndex origNum =
     (0 \<le> origNum \<and> sorted_wrt (<) origIndex
      \<and> list_all (\<lambda>i. int i \<le> origIndex ! i \<and> origIndex ! i < origNum) [0..<length origIndex])"

text \<open>\<open>v\<close> cut or filled with \<open>zero\<close> to the length \<open>n\<close>.\<close>

definition padded :: "'a \<Rightarrow> nat \<Rightarrow> 'a list \<Rightarrow> 'a list" where
  "padded zero n v = take n v @ replicate (n - length v) zero"

text \<open>The closed form of the expansion loop over the reduced indices \<open>n - 1\<close> down to 0.\<close>

fun gather :: "int list \<Rightarrow> nat \<Rightarrow> 'a list \<Rightarrow> 'a list" where
  "gather origIndex 0 v = v"
| "gather origIndex (Suc n) v = gather origIndex n (v[nat (origIndex ! n) := v ! n])"

text \<open>
  The nonzeros of a slice with every index sent through \<open>origIndex\<close>, as the spec words the
  side payload, and the condition that every index of the slice is a valid subscript.
\<close>

definition translated :: "int list \<Rightarrow> nonzeros \<Rightarrow> nonzeros" where
  "translated origIndex vec = map (\<lambda>(i, v). (origIndex ! nat i, v)) vec"

definition valid_indices :: "int list \<Rightarrow> nonzeros \<Rightarrow> bool" where
  "valid_indices origIndex vec = list_all (\<lambda>(i, v). valid_index origIndex i) vec"

subsection \<open>Test instances\<close>

text \<open>
  An instance of the external parts in which every \<open>undo\<close> leaves its mark at the end of
  \<open>col_value\<close>, so that the order of the calls can be read off the result.
\<close>

definition marking :: "real \<Rightarrow> lifted \<Rightarrow> lifted" where
  "marking m = (\<lambda>(solution, basis).
     (solution\<lparr>col_value := col_value solution @ [Finite m]\<rparr>, basis))"

definition marking_external :: external where
  "marking_external =
     \<lparr>FreeColSubstitution_undo = (\<lambda>d rv cv. marking 1),
      DoubletonEquation_undo = (\<lambda>d cv. marking 2),
      EqualityRowAddition_undo = (\<lambda>d. marking 3),
      SingletonRow_undo = (\<lambda>d. marking 4),
      FixedCol_undo = (\<lambda>d cv. marking 5),
      RedundantRow_undo = (\<lambda>d. marking 6),
      ForcingRow_undo = (\<lambda>d rv. marking 7),
      DuplicateRow_undo = (\<lambda>d. marking 8),
      DuplicateColumn_undo = (\<lambda>d sb feastol. marking 9 sb),
      HighsBasisStatus_zero = LOWER\<rparr>"

text \<open>A postsolve stack with the given index maps and dimensions and nothing recorded.\<close>

definition empty_stack :: "int list \<Rightarrow> int list \<Rightarrow> int \<Rightarrow> int \<Rightarrow> HighsPostsolveStack" where
  "empty_stack rowIndex colIndex numRow numCol =
     \<lparr>reductionValues = \<lparr>data = [], position = 0\<rparr>, reductions = [],
      origColIndex = colIndex, origRowIndex = rowIndex, rowValues = [], colValues = [],
      origNumCol = numCol, origNumRow = numRow\<rparr>"

text \<open>
  Five recording calls on a stack with two of three rows and two of four columns left, the
  stack they produce, and a reduced solution with its expansion.
\<close>

definition sample_calls :: "call list" where
  "sample_calls =
     [Call_redundantRow 1,
      Call_singletonRow 0 1 (Finite 2) True False,
      Call_fixedColAtLower 0 (Finite 0) (Finite 1) [(0, Finite 3)],
      Call_equalityRowAddition 0 1 (Finite 2),
      Call_freeColSubstitution 1 0 (Finite 4) (Finite 1) Eq
        [(0, Finite 1), (1, Finite 2)] [(1, Finite 1)]]"

definition sample_stack :: HighsPostsolveStack where
  "sample_stack = empty_stack [0, 2] [1, 3] 3 4"

definition sample_recorded :: HighsPostsolveStack where
  "sample_recorded =
     \<lparr>reductionValues =
        \<lparr>data =
           [PRedundantRow (RedundantRow 1),
            PSingletonRow (SingletonRow (Finite 2) 0 3 True False),
            PFixedCol (FixedCol (Finite 0) (Finite 1) 1 LOWER),
            PVector [(0, Finite 3)],
            PEqualityRowAddition (EqualityRowAddition 0 2 (Finite 2)),
            PFreeColSubstitution (FreeColSubstitution (Finite 4) (Finite 1) 2 1 Eq),
            PVector [(1, Finite 1), (3, Finite 2)],
            PVector [(2, Finite 1)]],
         position = 0\<rparr>,
      reductions =
        [kRedundantRow, kSingletonRow, kFixedCol, kEqualityRowAddition, kFreeColSubstitution],
      origColIndex = [1, 3], origRowIndex = [0, 2],
      rowValues = [(1, Finite 1), (3, Finite 2)], colValues = [(2, Finite 1)],
      origNumCol = 4, origNumRow = 3\<rparr>"

definition sample_solution :: HighsSolution where
  "sample_solution =
     \<lparr>col_value = [Finite 5, Finite 6], col_dual = [],
      row_value = [Finite 7, Finite 8], row_dual = []\<rparr>"

definition sample_basis :: HighsBasis where
  "sample_basis = \<lparr>col_status = [], row_status = []\<rparr>"

definition sample_expanded :: lifted where
  "sample_expanded =
     (\<lparr>col_value = [Finite 5, Finite 5, Finite 0, Finite 6], col_dual = [],
       row_value = [Finite 7, Finite 8, Finite 8], row_dual = []\<rparr>,
      \<lparr>col_status = [], row_status = []\<rparr>)"

text \<open>
  A reduced solution with duals for the sample stack, whose \<open>row_dual\<close> and \<open>col_status\<close> are
  shorter than the reduced dimensions.
\<close>

definition sample_dual_solution :: HighsSolution where
  "sample_dual_solution =
     \<lparr>col_value = [Finite 5, Finite 6], col_dual = [Finite 1, Finite 2],
      row_value = [Finite 7, Finite 8], row_dual = [Finite 3]\<rparr>"

definition sample_dual_basis :: HighsBasis where
  "sample_dual_basis = \<lparr>col_status = [BASIC], row_status = [UPPER, BASIC]\<rparr>"

text \<open>
  The sample after its row map is compressed to the one row left, the recorded reductions
  it holds, the stack after one more recording call, and a reduced solution for it with
  its expansion.
\<close>

definition sample_records :: "recorded list" where
  "sample_records =
     [RRedundantRow (RedundantRow 1),
      RSingletonRow (SingletonRow (Finite 2) 0 3 True False),
      RFixedCol (FixedCol (Finite 0) (Finite 1) 1 LOWER) [(0, Finite 3)],
      REqualityRowAddition (EqualityRowAddition 0 2 (Finite 2)),
      RFreeColSubstitution (FreeColSubstitution (Finite 4) (Finite 1) 2 1 Eq)
        [(1, Finite 1), (3, Finite 2)] [(2, Finite 1)]]"

definition sample_compressed :: HighsPostsolveStack where
  "sample_compressed = sample_recorded\<lparr>origRowIndex := [2]\<rparr>"

definition sample_later :: HighsPostsolveStack where
  "sample_later =
     sample_compressed
       \<lparr>reductionValues :=
          push (PSingletonRow (SingletonRow (Finite 3) 2 1 False True))
            (reductionValues sample_compressed),
        reductions := reductions sample_compressed @ [kSingletonRow]\<rparr>"

definition sample_later_solution :: HighsSolution where
  "sample_later_solution =
     \<lparr>col_value = [Finite 5, Finite 6], col_dual = [], row_value = [Finite 8], row_dual = []\<rparr>"

definition sample_later_expanded :: lifted where
  "sample_later_expanded =
     (\<lparr>col_value = [Finite 5, Finite 5, Finite 0, Finite 6], col_dual = [],
       row_value = [Finite 8, Finite 0, Finite 8], row_dual = []\<rparr>,
      \<lparr>col_status = [], row_status = []\<rparr>)"

section \<open>Properties\<close>

lemma bindE_Inl [simp]: "bindE (Inl e) f = Inl e"
  by (simp add: bindE_def)

lemma bindE_Inr [simp]: "bindE (Inr x) f = f x"
  by (simp add: bindE_def)

subsection \<open>Loops and subscripts\<close>

lemma for_down_step:
  "stop \<le> i \<Longrightarrow> for_down i stop body s = bindE (body i s) (for_down (i - 1) stop body)"
  by (subst for_down.simps) (simp add: bindE_def split: sum.splits)

lemma for_down_done: "i < stop \<Longrightarrow> for_down i stop body s = Inr s"
  by (subst for_down.simps) simp


lemma vec_at_valid: "valid_index v i \<Longrightarrow> vec_at v i = Inr (v ! nat i)"
  by (simp add: vec_at_def valid_index_def)

lemma vec_at_Inr: "vec_at v i = Inr x \<Longrightarrow> valid_index v i \<and> x = v ! nat i"
  by (auto simp: vec_at_def valid_index_def split: if_splits)

lemma bindE_eq_Inr: "bindE m f = Inr y \<longleftrightarrow> (\<exists>x. m = Inr x \<and> f x = Inr y)"
  by (cases m) auto

lemma translate_valid:
  "list_all (\<lambda>(i, v). valid_index origIndex i) vec
   \<Longrightarrow> translate origIndex vec = Inr (map (\<lambda>(i, v). (origIndex ! nat i, v)) vec)"
  by (induction vec) (auto simp: vec_at_valid)

lemma translate_Inr:
  "translate origIndex vec = Inr vals
   \<Longrightarrow> list_all (\<lambda>(i, v). valid_index origIndex i) vec
       \<and> vals = map (\<lambda>(i, v). (origIndex ! nat i, v)) vec"
  by (induction vec arbitrary: vals) (auto simp: bindE_eq_Inr dest!: vec_at_Inr)

subsection \<open>What the recording operations push and what the replay pops\<close>

lemma record_call_recorded:
  assumes "record_call st c = Inr st'"
  shows "\<exists>r. tag_of r = call_tag c
          \<and> reductions st' = reductions st @ [tag_of r]
          \<and> data (reductionValues st') = data (reductionValues st) @ spec_pushed r
          \<and> position (reductionValues st') = position (reductionValues st)
          \<and> origColIndex st' = origColIndex st \<and> origRowIndex st' = origRowIndex st
          \<and> origNumCol st' = origNumCol st \<and> origNumRow st' = origNumRow st"
proof (cases c)
  case (Call_freeColSubstitution row col rhs colCost rowType rowVec colVec)
  with assms obtain rv cv r c' where
    "st' = st\<lparr>rowValues := rv, colValues := cv,
              reductionValues :=
                push (PVector cv) (push (PVector rv)
                  (push (PFreeColSubstitution (FreeColSubstitution rhs colCost r c' rowType))
                     (reductionValues st))),
              reductions := reductions st @ [kFreeColSubstitution]\<rparr>"
    by (auto simp: freeColSubstitution_def bindE_eq_Inr)
  then show ?thesis using Call_freeColSubstitution
    by (intro exI[of _ "RFreeColSubstitution (FreeColSubstitution rhs colCost r c' rowType) rv cv"])
       (simp add: push_def)
next
  case (Call_doubletonEquation row colSubst col coefSubst coef rhs substLower
       substUpper oldLower oldUpper newLower newUpper substCost colVec)
  with assms obtain cv d where
    "st' = st\<lparr>colValues := cv,
              reductionValues := push (PVector cv) (push (PDoubletonEquation d) (reductionValues st)),
              reductions := reductions st @ [kDoubletonEquation]\<rparr>"
    by (auto simp: doubletonEquation_def bindE_eq_Inr)
  then show ?thesis using Call_doubletonEquation
    by (intro exI[of _ "RDoubletonEquation d cv"]) (simp add: push_def)
next
  case (Call_equalityRowAddition row addedEqRow eqRowScale)
  with assms obtain d where
    "st' = st\<lparr>reductionValues := push (PEqualityRowAddition d) (reductionValues st),
              reductions := reductions st @ [kEqualityRowAddition]\<rparr>"
    by (auto simp: equalityRowAddition_def bindE_eq_Inr)
  then show ?thesis using Call_equalityRowAddition
    by (intro exI[of _ "REqualityRowAddition d"]) (simp add: push_def)
next
  case (Call_singletonRow row col coef tightenedColLower tightenedColUpper)
  with assms obtain d where
    "st' = st\<lparr>reductionValues := push (PSingletonRow d) (reductionValues st),
              reductions := reductions st @ [kSingletonRow]\<rparr>"
    by (auto simp: singletonRow_def bindE_eq_Inr)
  then show ?thesis using Call_singletonRow
    by (intro exI[of _ "RSingletonRow d"]) (simp add: push_def)
next
  case (Call_fixedColAtLower col fixValue colCost colVec)
  with assms obtain cv d where
    "st' = st\<lparr>colValues := cv,
              reductionValues := push (PVector cv) (push (PFixedCol d) (reductionValues st)),
              reductions := reductions st @ [kFixedCol]\<rparr>"
    by (auto simp: fixedColAtLower_def bindE_eq_Inr split: if_splits)
  then show ?thesis using Call_fixedColAtLower
    by (intro exI[of _ "RFixedCol d cv"]) (simp add: push_def)
next
  case (Call_fixedColAtUpper col fixValue colCost colVec)
  with assms obtain cv d where
    "st' = st\<lparr>colValues := cv,
              reductionValues := push (PVector cv) (push (PFixedCol d) (reductionValues st)),
              reductions := reductions st @ [kFixedCol]\<rparr>"
    by (auto simp: fixedColAtUpper_def bindE_eq_Inr split: if_splits)
  then show ?thesis using Call_fixedColAtUpper
    by (intro exI[of _ "RFixedCol d cv"]) (simp add: push_def)
next
  case (Call_removedFixedCol col fixValue colCost colVec)
  with assms obtain cv d where
    "st' = st\<lparr>colValues := cv,
              reductionValues := push (PVector cv) (push (PFixedCol d) (reductionValues st)),
              reductions := reductions st @ [kFixedCol]\<rparr>"
    by (auto simp: removedFixedCol_def bindE_eq_Inr split: if_splits)
  then show ?thesis using Call_removedFixedCol
    by (intro exI[of _ "RFixedCol d cv"]) (simp add: push_def)
next
  case (Call_redundantRow row)
  with assms have
    "st' = st\<lparr>reductionValues := push (PRedundantRow (RedundantRow row)) (reductionValues st),
              reductions := reductions st @ [kRedundantRow]\<rparr>"
    by (auto simp: redundantRow_def)
  then show ?thesis using Call_redundantRow
    by (intro exI[of _ "RRedundantRow (RedundantRow row)"]) (simp add: push_def)
next
  case (Call_forcingRow row rowVec side rowType)
  with assms obtain rv d where
    "st' = st\<lparr>rowValues := rv,
              reductionValues := push (PVector rv) (push (PForcingRow d) (reductionValues st)),
              reductions := reductions st @ [kForcingRow]\<rparr>"
    by (auto simp: forcingRow_def bindE_eq_Inr)
  then show ?thesis using Call_forcingRow
    by (intro exI[of _ "RForcingRow d rv"]) (simp add: push_def)
next
  case (Call_duplicateRow row rowUpperTightened rowLowerTightened duplicateRow' duplicateRowScale)
  with assms obtain d where
    "st' = st\<lparr>reductionValues := push (PDuplicateRow d) (reductionValues st),
              reductions := reductions st @ [kDuplicateRow]\<rparr>"
    by (auto simp: duplicateRow_def bindE_eq_Inr)
  then show ?thesis using Call_duplicateRow
    by (intro exI[of _ "RDuplicateRow d"]) (simp add: push_def)
next
  case (Call_duplicateColumn colScale colLower colUpper duplicateColLower
       duplicateColUpper col duplicateCol colIntegral duplicateColIntegral)
  with assms obtain d where
    "st' = st\<lparr>reductionValues := push (PDuplicateColumn d) (reductionValues st),
              reductions := reductions st @ [kDuplicateColumn]\<rparr>"
    by (auto simp: duplicateColumn_def bindE_eq_Inr)
  then show ?thesis using Call_duplicateColumn
    by (intro exI[of _ "RDuplicateColumn d"]) (simp add: push_def)
qed


lemma dispatch_recorded:
  assumes "data (reductionValues st) = xs @ spec_pushed r @ ys"
    and "position (reductionValues st) = length xs + length (spec_pushed r)"
  shows "\<exists>st'. dispatch X feastol (tag_of r) (st, sb) = Inr (st', undo_recorded X feastol r sb)
           \<and> reductionValues st' = (reductionValues st)\<lparr>position := length xs\<rparr>
           \<and> reductions st' = reductions st
           \<and> origColIndex st' = origColIndex st \<and> origRowIndex st' = origRowIndex st
           \<and> origNumCol st' = origNumCol st \<and> origNumRow st' = origNumRow st"
  using assms
  by (cases r) (simp_all add: pop_as_def pop_def nth_append)


lemma for_down_recorded:
  assumes "reductions st = map tag_of rs @ ts"
    and "data (reductionValues st) = concat (map spec_pushed rs) @ ys"
    and "position (reductionValues st) = length (concat (map spec_pushed rs))"
    and "k \<le> length rs"
  shows "\<exists>st'. for_down (int (length rs) - 1) (int k)
                 (\<lambda>i (st', sb'). bindE (vec_at (reductions st') i)
                                    (\<lambda>t. dispatch X feastol t (st', sb')))
                 (st, sb)
               = Inr (st', fold (undo_recorded X feastol) (rev (drop k rs)) sb)
           \<and> reductionValues st' =
               (reductionValues st)\<lparr>position := length (concat (map spec_pushed (take k rs)))\<rparr>
           \<and> reductions st' = reductions st
           \<and> origColIndex st' = origColIndex st \<and> origRowIndex st' = origRowIndex st
           \<and> origNumCol st' = origNumCol st \<and> origNumRow st' = origNumRow st"
  using assms
proof (induction rs arbitrary: st sb ts ys rule: rev_induct)
  case Nil
  then show ?case by (simp add: for_down_done)
next
  case (snoc r rs)
  let ?body = "\<lambda>i (st', sb'). bindE (vec_at (reductions st') i)
                                    (\<lambda>t. dispatch X feastol t (st', sb'))"
  show ?case
  proof (cases "k = Suc (length rs)")
    case True
    with snoc.prems show ?thesis by (simp add: for_down_done)
  next
    case False
    with snoc.prems have k: "k \<le> length rs" by simp
    have tag: "vec_at (reductions st) (int (length rs)) = Inr (tag_of r)"
      using snoc.prems(1) by (simp add: vec_at_def nth_append)
    obtain st1 where
      d: "dispatch X feastol (tag_of r) (st, sb) = Inr (st1, undo_recorded X feastol r sb)"
      and rv: "reductionValues st1 =
                 (reductionValues st)\<lparr>position := length (concat (map spec_pushed rs))\<rparr>"
      and keep: "reductions st1 = reductions st" "origColIndex st1 = origColIndex st"
        "origRowIndex st1 = origRowIndex st" "origNumCol st1 = origNumCol st"
        "origNumRow st1 = origNumRow st"
      using dispatch_recorded[of st "concat (map spec_pushed rs)" r ys X feastol sb] snoc.prems
      by auto
    have step: "for_down (int (length (rs @ [r])) - 1) (int k) ?body (st, sb)
                = for_down (int (length rs) - 1) (int k) ?body (st1, undo_recorded X feastol r sb)"
      using k tag d by (simp add: for_down_step)
    obtain st' where
      "for_down (int (length rs) - 1) (int k) ?body (st1, undo_recorded X feastol r sb)
         = Inr (st', fold (undo_recorded X feastol) (rev (drop k rs)) (undo_recorded X feastol r sb))"
      "reductionValues st' =
         (reductionValues st1)\<lparr>position := length (concat (map spec_pushed (take k rs)))\<rparr>"
      "reductions st' = reductions st1" "origColIndex st' = origColIndex st1"
      "origRowIndex st' = origRowIndex st1" "origNumCol st' = origNumCol st1"
      "origNumRow st' = origNumRow st1"
      using snoc.IH[of st1 "tag_of r # ts" "spec_pushed r @ ys" "undo_recorded X feastol r sb"]
        snoc.prems k rv keep
      by auto
    then show ?thesis using step k rv keep by (intro exI[of _ st']) simp
  qed
qed

subsection \<open>The expansion into the original index space\<close>

lemma index_map_nth:
  "index_map origIndex origNum \<Longrightarrow> i < length origIndex
   \<Longrightarrow> int i \<le> origIndex ! i \<and> origIndex ! i < origNum"
  by (simp add: index_map_def list_all_iff)

lemma index_map_less:
  "index_map origIndex origNum \<Longrightarrow> i < j \<Longrightarrow> j < length origIndex
   \<Longrightarrow> origIndex ! i < origIndex ! j"
  by (simp add: index_map_def sorted_wrt_iff_nth_less)

lemma index_map_length:
  assumes "index_map origIndex origNum"
  shows "int (length origIndex) \<le> origNum"
proof (cases origIndex rule: rev_cases)
  case Nil
  then show ?thesis using assms by (simp add: index_map_def)
next
  case (snoc xs x)
  then have "int (length xs) \<le> origIndex ! length xs \<and> origIndex ! length xs < origNum"
    using index_map_nth[OF assms, of "length xs"] by simp
  then show ?thesis using snoc by simp
qed

lemma length_gather [simp]: "length (gather origIndex n v) = length v"
  by (induction n arbitrary: v) simp_all

lemma gather_nth_other:
  "(\<And>i. i < n \<Longrightarrow> nat (origIndex ! i) \<noteq> k) \<Longrightarrow> gather origIndex n v ! k = v ! k"
  by (induction n arbitrary: v) simp_all

lemma gather_nth:
  assumes "\<And>i. i < n \<Longrightarrow> int i \<le> origIndex ! i \<and> origIndex ! i < int (length v)"
    and "\<And>i j. i < j \<Longrightarrow> j < n \<Longrightarrow> origIndex ! i < origIndex ! j"
    and "i < n"
  shows "gather origIndex n v ! nat (origIndex ! i) = v ! i"
  using assms
proof (induction n arbitrary: v)
  case 0
  then show ?case by simp
next
  case (Suc n)
  let ?v = "v[nat (origIndex ! n) := v ! n]"
  have bound: "int n \<le> origIndex ! n" "origIndex ! n < int (length v)"
    using Suc.prems(1)[of n] by simp_all
  show ?case
  proof (cases "i = n")
    case True
    have "gather origIndex n ?v ! nat (origIndex ! n) = ?v ! nat (origIndex ! n)"
    proof (rule gather_nth_other)
      fix j assume "j < n"
      then have "origIndex ! j < origIndex ! n" "int j \<le> origIndex ! j"
        using Suc.prems(2)[of j n] Suc.prems(1)[of j] by simp_all
      then show "nat (origIndex ! j) \<noteq> nat (origIndex ! n)" by simp
    qed
    also have "\<dots> = v ! n" using bound by simp
    finally show ?thesis using True by simp
  next
    case False
    with Suc.prems(3) have i: "i < n" by simp
    have "gather origIndex n ?v ! nat (origIndex ! i) = ?v ! i"
      using Suc.prems(1,2) i by (intro Suc.IH) simp_all
    also have "\<dots> = v ! i" using bound i by simp
    finally show ?thesis by simp
  qed
qed

lemma gather_identity:
  "(\<And>i. i < n \<Longrightarrow> origIndex ! i = int i) \<Longrightarrow> gather origIndex n v = v"
  by (induction n arbitrary: v) simp_all

lemma lift_entry_gather:
  assumes "i < length origIndex" "0 \<le> origIndex ! i" "origIndex ! i < int (length v)"
    "i < length v"
  shows "lift_entry origIndex (int i) v = Inr (v[nat (origIndex ! i) := v ! i])"
  using assms by (simp add: lift_entry_def vec_at_def)

lemma values_loop_gather:
  assumes "n \<le> length origIndex"
    and "\<And>i. i < n \<Longrightarrow> int i \<le> origIndex ! i \<and> origIndex ! i < int (length v)"
  shows "for_down (int n - 1) 0
           (\<lambda>i v'. bindE (assert_not_below origIndex i) (\<lambda>_. lift_entry origIndex i v')) v
         = Inr (gather origIndex n v)"
  using assms
proof (induction n arbitrary: v)
  case 0
  then show ?case by (simp add: for_down_done)
next
  case (Suc n)
  have b: "int n \<le> origIndex ! n" "origIndex ! n < int (length v)" "n < length origIndex"
    using Suc.prems(2)[of n] Suc.prems(1) by simp_all
  then have "n < length v" by linarith
  with b have l: "lift_entry origIndex (int n) v = Inr (v[nat (origIndex ! n) := v ! n])"
    by (intro lift_entry_gather) simp_all
  have a: "assert_not_below origIndex (int n) = Inr ()"
    using b by (simp add: assert_not_below_def vec_at_def)
  have "for_down (int n - 1) 0
           (\<lambda>i v'. bindE (assert_not_below origIndex i) (\<lambda>_. lift_entry origIndex i v'))
           (v[nat (origIndex ! n) := v ! n])
        = Inr (gather origIndex n (v[nat (origIndex ! n) := v ! n]))"
    using Suc.prems by (intro Suc.IH) simp_all
  then show ?case using a l by (simp add: for_down_step)
qed

lemma duals_loop_gather:
  assumes "n \<le> length origIndex"
    and "\<And>i. i < n \<Longrightarrow> int i \<le> origIndex ! i \<and> origIndex ! i < int (length a)"
    and "length b = length a"
  shows "for_down (int n - 1) 0
           (\<lambda>i (a', b').
              bindE (lift_entry origIndex i a') (\<lambda>a''.
              bindE (lift_entry origIndex i b') (\<lambda>b''. Inr (a'', b''))))
           (a, b)
         = Inr (gather origIndex n a, gather origIndex n b)"
  using assms
proof (induction n arbitrary: a b)
  case 0
  then show ?case by (simp add: for_down_done)
next
  case (Suc n)
  have bd: "int n \<le> origIndex ! n" "origIndex ! n < int (length a)" "n < length origIndex"
    using Suc.prems(2)[of n] Suc.prems(1) by simp_all
  then have n: "n < length a" by linarith
  have la: "lift_entry origIndex (int n) a = Inr (a[nat (origIndex ! n) := a ! n])"
    using bd n by (intro lift_entry_gather) simp_all
  have lb: "lift_entry origIndex (int n) b = Inr (b[nat (origIndex ! n) := b ! n])"
    using bd n Suc.prems(3) by (intro lift_entry_gather) simp_all
  have "for_down (int n - 1) 0
           (\<lambda>i (a', b').
              bindE (lift_entry origIndex i a') (\<lambda>a''.
              bindE (lift_entry origIndex i b') (\<lambda>b''. Inr (a'', b''))))
           (a[nat (origIndex ! n) := a ! n], b[nat (origIndex ! n) := b ! n])
        = Inr (gather origIndex n (a[nat (origIndex ! n) := a ! n]),
               gather origIndex n (b[nat (origIndex ! n) := b ! n]))"
    using Suc.prems by (intro Suc.IH) simp_all
  then show ?case using la lb by (simp add: for_down_step)
qed

lemma resize_padded: "0 \<le> n \<Longrightarrow> resize zero n v = Inr (padded zero (nat n) v)"
  by (simp add: resize_def padded_def)

lemma length_padded [simp]: "length (padded zero n v) = n"
  by (simp add: padded_def)

lemma padded_nth: "i < n \<Longrightarrow> padded zero n v ! i = (if i < length v then v ! i else zero)"
  by (simp add: padded_def nth_append)

lemma padded_same: "length v = n \<Longrightarrow> padded zero n v = v"
  by (simp add: padded_def)

lemma expand_values_gather:
  assumes "index_map origIndex origNum"
  shows "expand_values origIndex origNum v
         = Inr (gather origIndex (length origIndex) (padded (Finite 0) (nat origNum) v))"
proof -
  have nn: "0 \<le> origNum" using assms by (simp add: index_map_def)
  moreover have "for_down (int (length origIndex) - 1) 0
           (\<lambda>i v'. bindE (assert_not_below origIndex i) (\<lambda>_. lift_entry origIndex i v'))
           (padded (Finite 0) (nat origNum) v)
         = Inr (gather origIndex (length origIndex) (padded (Finite 0) (nat origNum) v))"
    using index_map_nth[OF assms] nn by (intro values_loop_gather) auto
  ultimately show ?thesis by (simp add: expand_values_def resize_padded)
qed

lemma expand_duals_gather:
  assumes "index_map origIndex origNum"
  shows "expand_duals zero origIndex origNum status dual
         = Inr (gather origIndex (length origIndex) (padded zero (nat origNum) status),
                gather origIndex (length origIndex) (padded (Finite 0) (nat origNum) dual))"
proof -
  have nn: "0 \<le> origNum" using assms by (simp add: index_map_def)
  moreover have "for_down (int (length origIndex) - 1) 0
           (\<lambda>i (a', b').
              bindE (lift_entry origIndex i a') (\<lambda>a''.
              bindE (lift_entry origIndex i b') (\<lambda>b''. Inr (a'', b''))))
           (padded zero (nat origNum) status, padded (Finite 0) (nat origNum) dual)
         = Inr (gather origIndex (length origIndex) (padded zero (nat origNum) status),
                gather origIndex (length origIndex) (padded (Finite 0) (nat origNum) dual))"
    using index_map_nth[OF assms] nn by (intro duals_loop_gather) auto
  ultimately show ?thesis by (simp add: expand_duals_def resize_padded)
qed

lemma expand_gather:
  assumes "index_map (origColIndex st) (origNumCol st)"
    and "index_map (origRowIndex st) (origNumRow st)"
  shows "expand zero st (solution, basis) =
     Inr (if length (col_dual solution) = length (col_value solution)
          then (solution
                 \<lparr>col_value := gather (origColIndex st) (length (origColIndex st))
                                 (padded (Finite 0) (nat (origNumCol st)) (col_value solution)),
                  row_value := gather (origRowIndex st) (length (origRowIndex st))
                                 (padded (Finite 0) (nat (origNumRow st)) (row_value solution)),
                  col_dual := gather (origColIndex st) (length (origColIndex st))
                                 (padded (Finite 0) (nat (origNumCol st)) (col_dual solution)),
                  row_dual := gather (origRowIndex st) (length (origRowIndex st))
                                 (padded (Finite 0) (nat (origNumRow st)) (row_dual solution))\<rparr>,
                basis
                 \<lparr>col_status := gather (origColIndex st) (length (origColIndex st))
                                 (padded zero (nat (origNumCol st)) (col_status basis)),
                  row_status := gather (origRowIndex st) (length (origRowIndex st))
                                 (padded zero (nat (origNumRow st)) (row_status basis))\<rparr>)
          else (solution
                 \<lparr>col_value := gather (origColIndex st) (length (origColIndex st))
                                 (padded (Finite 0) (nat (origNumCol st)) (col_value solution)),
                  row_value := gather (origRowIndex st) (length (origRowIndex st))
                                 (padded (Finite 0) (nat (origNumRow st)) (row_value solution))\<rparr>,
                basis))"
  using assms
  by (simp add: expand_def expand_values_gather expand_duals_gather)

lemma gather_padded_nth:
  assumes "index_map origIndex origNum" and "i < length origIndex"
  shows "gather origIndex (length origIndex) (padded zero (nat origNum) v) ! nat (origIndex ! i)
         = (if i < length v then v ! i else zero)"
proof -
  have nn: "0 \<le> origNum" using assms by (simp add: index_map_def)
  have "gather origIndex (length origIndex) (padded zero (nat origNum) v) ! nat (origIndex ! i)
        = padded zero (nat origNum) v ! i"
    using index_map_nth[OF assms(1)] index_map_less[OF assms(1)] assms(2) nn
    by (intro gather_nth) auto
  moreover have "i < nat origNum"
    using index_map_length[OF assms(1)] assms(2) by linarith
  ultimately show ?thesis by (simp add: padded_nth)
qed


subsection \<open>Replay of a recorded sequence\<close>

lemma record_calls_recorded:
  assumes "record_calls st calls = Inr st'"
  shows "\<exists>rs. map tag_of rs = map call_tag calls
          \<and> reductions st' = reductions st @ map tag_of rs
          \<and> data (reductionValues st') = data (reductionValues st) @ concat (map spec_pushed rs)
          \<and> position (reductionValues st') = position (reductionValues st)
          \<and> origColIndex st' = origColIndex st \<and> origRowIndex st' = origRowIndex st
          \<and> origNumCol st' = origNumCol st \<and> origNumRow st' = origNumRow st"
  using assms
proof (induction calls arbitrary: st)
  case Nil
  then show ?case by simp
next
  case (Cons c calls)
  then obtain st1 where 1: "record_call st c = Inr st1" and 2: "record_calls st1 calls = Inr st'"
    by (auto simp: bindE_eq_Inr)
  from record_call_recorded[OF 1] obtain r where r:
    "tag_of r = call_tag c" "reductions st1 = reductions st @ [tag_of r]"
    "data (reductionValues st1) = data (reductionValues st) @ spec_pushed r"
    "position (reductionValues st1) = position (reductionValues st)"
    "origColIndex st1 = origColIndex st" "origRowIndex st1 = origRowIndex st"
    "origNumCol st1 = origNumCol st" "origNumRow st1 = origNumRow st"
    by blast
  from Cons.IH[OF 2] obtain rs where rs:
    "map tag_of rs = map call_tag calls" "reductions st' = reductions st1 @ map tag_of rs"
    "data (reductionValues st') = data (reductionValues st1) @ concat (map spec_pushed rs)"
    "position (reductionValues st') = position (reductionValues st1)"
    "origColIndex st' = origColIndex st1" "origRowIndex st' = origRowIndex st1"
    "origNumCol st' = origNumCol st1" "origNumRow st' = origNumRow st1"
    by blast
  show ?case using r rs by (intro exI[of _ "r # rs"]) simp
qed

lemma expand_reductionValues [simp]:
  "expand zero (st\<lparr>reductionValues := s\<rparr>) = expand zero st"
  by (simp add: expand_def fun_eq_iff cong: if_cong)

lemma undo_eq_undoUntil:
  "undo X st solution basis feastol = undoUntil X st solution basis feastol 0"
  by (simp add: undo_def undoUntil_def)

lemma undoUntil_recorded:
  assumes "reductions st = map tag_of rs"
    and "data (reductionValues st) = concat (map spec_pushed rs)"
    and "length (col_value solution) = length (origColIndex st)"
    and "length (row_value solution) = length (origRowIndex st)"
    and "expand (HighsBasisStatus_zero X) st (solution, basis) = Inr sb"
    and "k \<le> length rs"
  shows "\<exists>st'. undoUntil X st solution basis feastol (int k)
                 = Inr (st', fold (undo_recorded X feastol) (rev (drop k rs)) sb)
           \<and> position (reductionValues st') = length (concat (map spec_pushed (take k rs)))
           \<and> data (reductionValues st') = data (reductionValues st)
           \<and> reductions st' = reductions st"
proof -
  let ?st1 = "st\<lparr>reductionValues := resetPosition (reductionValues st)\<rparr>"
  obtain st' where
    "for_down (int (length rs) - 1) (int k)
        (\<lambda>i (st', sb'). bindE (vec_at (reductions st') i) (\<lambda>t. dispatch X feastol t (st', sb')))
        (?st1, sb)
      = Inr (st', fold (undo_recorded X feastol) (rev (drop k rs)) sb)"
    "reductionValues st' =
       (reductionValues ?st1)\<lparr>position := length (concat (map spec_pushed (take k rs)))\<rparr>"
    "reductions st' = reductions ?st1"
    using for_down_recorded[of ?st1 rs "[]" "[]" k X feastol sb] assms
    by (auto simp: resetPosition_def)
  then show ?thesis using assms
    by (intro exI[of _ st']) (simp add: undoUntil_def replay_def resetPosition_def)
qed

lemma dispatch_reductions:
  "dispatch X feastol t (st, sb) = Inr (st', sb') \<Longrightarrow> reductions st' = reductions st"
  by (cases t) (auto simp: bindE_eq_Inr)

lemma for_down_invariant:
  assumes "for_down i stop body s = Inr s'" and "P s"
    and "\<And>j a b. P a \<Longrightarrow> body j a = Inr b \<Longrightarrow> P b"
  shows "P s'"
  using assms
proof (induction i stop body s rule: for_down.induct)
  case (1 i stop body s)
  show ?case
  proof (cases "stop \<le> i")
    case True
    with "1.prems"(1) obtain s1 where s1: "body i s = Inr s1"
      and rest: "for_down (i - 1) stop body s1 = Inr s'"
      by (auto simp: for_down_step bindE_eq_Inr)
    have "P s1" using "1.prems"(2,3) s1 by blast
    then show ?thesis using "1.IH"[OF True s1 rest] "1.prems"(3) by blast
  next
    case False
    with "1.prems" show ?thesis by (simp add: for_down_done)
  qed
qed

lemma replay_reductions:
  assumes "replay X feastol stop (st, sb) = Inr (st', sb')"
  shows "reductions st' = reductions st"
proof -
  let ?P = "\<lambda>a. reductions (fst a) = reductions st"
  have "for_down (int (length (reductions st)) - 1) stop
          (\<lambda>i (st', sb'). bindE (vec_at (reductions st') i) (\<lambda>t. dispatch X feastol t (st', sb')))
          (st, sb) = Inr (st', sb')"
    using assms by (simp add: replay_def)
  moreover have "?P (st, sb)" by simp
  moreover have "\<And>j a b. ?P a \<Longrightarrow>
      (\<lambda>i (st', sb'). bindE (vec_at (reductions st') i) (\<lambda>t. dispatch X feastol t (st', sb')))
        j a = Inr b \<Longrightarrow> ?P b"
    by (auto simp: bindE_eq_Inr dest!: dispatch_reductions)
  ultimately have "?P (st', sb')" by (rule for_down_invariant)
  then show ?thesis by simp
qed

lemma undoUntil_reductions:
  assumes "undoUntil X st solution basis feastol j = Inr (st', sb')"
  shows "reductions st' = reductions st"
  using assms
  by (auto simp: undoUntil_def Let_def bindE_eq_Inr split: if_splits dest!: replay_reductions)

lemma map_nth_upt_drop: "map ((!) xs) [k..<length xs] = drop k xs"
  by (rule nth_equalityI) simp_all

lemmas sample_defs =
  sample_calls_def sample_stack_def sample_recorded_def sample_solution_def sample_basis_def
  sample_expanded_def empty_stack_def marking_external_def marking_def

text \<open>
  The checkpoint scenario of the spec on the sample: of the five reductions, \<open>undoUntil\<close> with
  checkpoint 2 replays the last three, last first (marks 1, 3 and 5 after the four expanded
  column values), and leaves the cursor above the values of the first two.
\<close>

lemma sample_undoUntil_checkpoint:
  "undoUntil marking_external sample_recorded sample_solution sample_basis (Finite 0) 2
   = Inr (sample_recorded
           \<lparr>reductionValues := (reductionValues sample_recorded)\<lparr>position := 2\<rparr>,
            colValues := [(0, Finite 3)]\<rparr>,
          \<lparr>col_value = [Finite 5, Finite 5, Finite 0, Finite 6, Finite 1, Finite 3, Finite 5],
            col_dual = [], row_value = [Finite 7, Finite 8, Finite 8], row_dual = []\<rparr>,
          \<lparr>col_status = [], row_status = []\<rparr>)"
  by code_simp

subsection \<open>Expansion of the duals and the identity maps\<close>

lemma sample_dual_expanded:
  "expand LOWER sample_stack (sample_dual_solution, sample_dual_basis)
   = Inr (\<lparr>col_value = [Finite 5, Finite 5, Finite 0, Finite 6],
            col_dual = [Finite 1, Finite 1, Finite 0, Finite 2],
            row_value = [Finite 7, Finite 8, Finite 8],
            row_dual = [Finite 3, Finite 0, Finite 0]\<rparr>,
          \<lparr>col_status = [BASIC, BASIC, LOWER, LOWER],
            row_status = [UPPER, BASIC, BASIC]\<rparr>)"
  by code_simp

lemma index_map_identity: "index_map (map int [0..<n]) (int n)"
  by (simp add: index_map_def list_all_iff sorted_wrt_iff_nth_less)

lemma gather_identity_upt:
  "n \<le> m \<Longrightarrow> length v = m \<Longrightarrow> gather (map int [0..<m]) n v = v"
  by (rule gather_identity) simp

lemma replay_nothing: "reductions st = [] \<Longrightarrow> replay X feastol 0 (st, sb) = Inr (st, sb)"
  by (simp add: replay_def for_down_done)

subsection \<open>Results of the recording operations\<close>

lemma translate_translated:
  "valid_indices origIndex vec \<Longrightarrow> translate origIndex vec = Inr (translated origIndex vec)"
  by (simp add: valid_indices_def translated_def translate_valid)

lemma translate_Inl: "translate origIndex vec = Inl e \<Longrightarrow> e = OutOfRange"
  by (induction vec arbitrary: e)
     (auto simp: vec_at_def bindE_def split: if_splits sum.splits)

lemma vec_at_Inl: "vec_at v i = Inl e \<Longrightarrow> e = OutOfRange"
  by (simp add: vec_at_def split: if_splits)

lemma bindE_eq_Inl:
  "bindE m f = Inl e \<longleftrightarrow> m = Inl e \<or> (\<exists>x. m = Inr x \<and> f x = Inl e)"
  by (cases m) auto

subsection \<open>The preamble inside undo and undoUntil\<close>

lemma replay_past_end:
  "int (length (reductions st)) \<le> stop \<Longrightarrow> replay X feastol stop (st, sb) = Inr (st, sb)"
  by (simp add: replay_def for_down_done)

lemma undo_after_expand:
  assumes "length (col_value solution) = length (origColIndex st)"
    and "length (row_value solution) = length (origRowIndex st)"
    and "expand (HighsBasisStatus_zero X) st (solution, basis) = Inr sb"
  shows "undo X st solution basis feastol
         = replay X feastol 0 (st\<lparr>reductionValues := resetPosition (reductionValues st)\<rparr>, sb)"
    and "undoUntil X st solution basis feastol k
         = replay X feastol k (st\<lparr>reductionValues := resetPosition (reductionValues st)\<rparr>, sb)"
  using assms by (simp_all add: undo_def undoUntil_def)

text \<open>
  \<open>undoUntil\<close> on the samples: with the checkpoint at the end of the record the result is
  the expanded solution; on the later stack with checkpoint 3 the last three reductions
  are replayed (marks 4, 1 and 3).
\<close>

lemma sample_dual_undoUntil_end:
  "undoUntil marking_external sample_recorded sample_dual_solution sample_dual_basis (Finite 0) 5
   = Inr (sample_recorded\<lparr>reductionValues := (reductionValues sample_recorded)\<lparr>position := 8\<rparr>\<rparr>,
          \<lparr>col_value = [Finite 5, Finite 5, Finite 0, Finite 6],
            col_dual = [Finite 1, Finite 1, Finite 0, Finite 2],
            row_value = [Finite 7, Finite 8, Finite 8],
            row_dual = [Finite 3, Finite 0, Finite 0]\<rparr>,
          \<lparr>col_status = [BASIC, BASIC, LOWER, LOWER],
            row_status = [UPPER, BASIC, BASIC]\<rparr>)"
  by code_simp

lemma sample_undoUntil_end:
  "undoUntil marking_external sample_recorded sample_solution sample_basis (Finite 0) 5
   = Inr (sample_recorded\<lparr>reductionValues := (reductionValues sample_recorded)\<lparr>position := 8\<rparr>\<rparr>,
          sample_expanded)"
  by code_simp

lemma sample_later_undoUntil:
  "undoUntil marking_external sample_later sample_later_solution sample_basis (Finite 0) 3
   = Inr (sample_later
           \<lparr>reductionValues := (reductionValues sample_later)\<lparr>position := 4\<rparr>\<rparr>,
          \<lparr>col_value = [Finite 5, Finite 5, Finite 0, Finite 6, Finite 4, Finite 1, Finite 3],
            col_dual = [], row_value = [Finite 8, Finite 0, Finite 8], row_dual = []\<rparr>,
          \<lparr>col_status = [], row_status = []\<rparr>)"
  by code_simp

section \<open>Claims\<close>

text \<open>
  C3: with index maps that are strictly increasing and map every reduced index \<open>i\<close> to an
  original index at or above \<open>i\<close> (and inside the original dimension), the preamble of
  \<open>undo\<close> and \<open>undoUntil\<close> succeeds on a solution that passes the guards, and hands to the
  replay a solution in which \<open>col_value[origColIndex[i]]\<close> is the value that slot \<open>i\<close> held
  before the call, and likewise for \<open>row_value\<close>: running from the last index down to 0
  never overwrites a slot that is still to be read. Where nothing is replayed (\<open>undo\<close> on an
  empty record, \<open>undoUntil\<close> with the checkpoint \<open>numReductions\<close>) that solution is the
  result.
\<close>

theorem expansion_keeps_reduced_values:
  assumes "index_map (origColIndex st) (origNumCol st)"
    and "index_map (origRowIndex st) (origNumRow st)"
    and "length (col_value solution) = length (origColIndex st)"
    and "length (row_value solution) = length (origRowIndex st)"
  shows "\<exists>solution' basis'.
           expand (HighsBasisStatus_zero X) st (solution, basis) = Inr (solution', basis')
           \<and> undo X st solution basis feastol
               = replay X feastol 0
                   (st\<lparr>reductionValues := resetPosition (reductionValues st)\<rparr>,
                    solution', basis')
           \<and> (\<forall>k. undoUntil X st solution basis feastol k
                    = replay X feastol k
                        (st\<lparr>reductionValues := resetPosition (reductionValues st)\<rparr>,
                         solution', basis'))
           \<and> (reductions st = [] \<longrightarrow>
                 undo X st solution basis feastol
                 = Inr (st\<lparr>reductionValues := resetPosition (reductionValues st)\<rparr>,
                        solution', basis'))
           \<and> undoUntil X st solution basis feastol (int (numReductions st))
               = Inr (st\<lparr>reductionValues := resetPosition (reductionValues st)\<rparr>,
                      solution', basis')
           \<and> (\<forall>i<length (origColIndex st).
                 col_value solution' ! nat (origColIndex st ! i) = col_value solution ! i)
           \<and> (\<forall>i<length (origRowIndex st).
                 row_value solution' ! nat (origRowIndex st ! i) = row_value solution ! i)"
proof -
  have "\<exists>solution' basis'.
           expand (HighsBasisStatus_zero X) st (solution, basis) = Inr (solution', basis')
           \<and> (\<forall>i<length (origColIndex st).
                 col_value solution' ! nat (origColIndex st ! i) = col_value solution ! i)
           \<and> (\<forall>i<length (origRowIndex st).
                 row_value solution' ! nat (origRowIndex st ! i) = row_value solution ! i)"
    using assms by (simp add: expand_gather gather_padded_nth)
  then obtain solution' basis' where
    e: "expand (HighsBasisStatus_zero X) st (solution, basis) = Inr (solution', basis')"
    and c: "\<forall>i<length (origColIndex st).
                 col_value solution' ! nat (origColIndex st ! i) = col_value solution ! i"
    and r: "\<forall>i<length (origRowIndex st).
                 row_value solution' ! nat (origRowIndex st ! i) = row_value solution ! i"
    by blast
  let ?st1 = "st\<lparr>reductionValues := resetPosition (reductionValues st)\<rparr>"
  have u: "undo X st solution basis feastol = replay X feastol 0 (?st1, solution', basis')"
    and uu: "\<forall>k. undoUntil X st solution basis feastol k
                  = replay X feastol k (?st1, solution', basis')"
    using undo_after_expand[OF assms(3,4) e] by simp_all
  have n: "reductions st = [] \<longrightarrow>
             undo X st solution basis feastol = Inr (?st1, solution', basis')"
    using u by (simp add: replay_past_end)
  have m: "undoUntil X st solution basis feastol (int (numReductions st))
           = Inr (?st1, solution', basis')"
    using uu by (simp add: replay_past_end numReductions_def)
  from e u uu n m c r show ?thesis by blast
qed

theorem expansion_keeps_reduced_values_witness:
  "\<exists>solution' basis'.
     expand (HighsBasisStatus_zero marking_external) sample_recorded
       (sample_solution, sample_basis) = Inr (solution', basis')
     \<and> undo marking_external sample_recorded sample_solution sample_basis (Finite 0)
         = replay marking_external (Finite 0) 0
             (sample_recorded
                \<lparr>reductionValues := resetPosition (reductionValues sample_recorded)\<rparr>,
              solution', basis')
     \<and> (\<forall>k. undoUntil marking_external sample_recorded sample_solution sample_basis
                (Finite 0) k
              = replay marking_external (Finite 0) k
                  (sample_recorded
                     \<lparr>reductionValues := resetPosition (reductionValues sample_recorded)\<rparr>,
                   solution', basis'))
     \<and> (reductions sample_recorded = [] \<longrightarrow>
           undo marking_external sample_recorded sample_solution sample_basis (Finite 0)
           = Inr (sample_recorded
                    \<lparr>reductionValues := resetPosition (reductionValues sample_recorded)\<rparr>,
                  solution', basis'))
     \<and> undoUntil marking_external sample_recorded sample_solution sample_basis (Finite 0)
           (int (numReductions sample_recorded))
         = Inr (sample_recorded
                  \<lparr>reductionValues := resetPosition (reductionValues sample_recorded)\<rparr>,
                solution', basis')
     \<and> (\<forall>i<length (origColIndex sample_recorded).
           col_value solution' ! nat (origColIndex sample_recorded ! i)
           = col_value sample_solution ! i)
     \<and> (\<forall>i<length (origRowIndex sample_recorded).
           row_value solution' ! nat (origRowIndex sample_recorded ! i)
           = row_value sample_solution ! i)"
proof (rule expansion_keeps_reduced_values)
  show "index_map (origColIndex sample_recorded) (origNumCol sample_recorded)" by code_simp
  show "index_map (origRowIndex sample_recorded) (origNumRow sample_recorded)" by code_simp
  show "length (col_value sample_solution) = length (origColIndex sample_recorded)"
    by code_simp
  show "length (row_value sample_solution) = length (origRowIndex sample_recorded)"
    by code_simp
qed

text \<open>
  C4: when \<open>col_value\<close> has not the length of \<open>origColIndex\<close>, or \<open>row_value\<close> has not the
  length of \<open>origRowIndex\<close>, \<open>undo\<close> and \<open>undoUntil\<close> return without an error and with the
  solution and the basis as they were passed.
\<close>

theorem undo_shape_mismatch:
  assumes "length (col_value solution) \<noteq> length (origColIndex st)
           \<or> length (row_value solution) \<noteq> length (origRowIndex st)"
  shows "(\<exists>st'. undo X st solution basis feastol = Inr (st', solution, basis))
         \<and> (\<exists>st'. undoUntil X st solution basis feastol k = Inr (st', solution, basis))"
  using assms by (auto simp: undo_def undoUntil_def Let_def)

theorem undo_shape_mismatch_witness:
  "(\<exists>st'. undo marking_external (empty_stack [0] [0, 2] 1 3)
            \<lparr>col_value = [Finite 1], col_dual = [], row_value = [Finite 2], row_dual = []\<rparr>
            \<lparr>col_status = [], row_status = []\<rparr> (Finite 0)
          = Inr (st', \<lparr>col_value = [Finite 1], col_dual = [], row_value = [Finite 2], row_dual = []\<rparr>,
                 \<lparr>col_status = [], row_status = []\<rparr>))
   \<and> (\<exists>st'. undoUntil marking_external (empty_stack [0] [0, 2] 1 3)
            \<lparr>col_value = [Finite 1], col_dual = [], row_value = [Finite 2], row_dual = []\<rparr>
            \<lparr>col_status = [], row_status = []\<rparr> (Finite 0) 0
          = Inr (st', \<lparr>col_value = [Finite 1], col_dual = [], row_value = [Finite 2], row_dual = []\<rparr>,
                 \<lparr>col_status = [], row_status = []\<rparr>))"
  by (rule undo_shape_mismatch) (simp add: empty_stack_def)

text \<open>
  C1: for every sequence of recording calls, the replay of \<open>undo\<close> and of \<open>undoUntil\<close> pops
  the value stack in the inverse of the push order of the recording operations. The stack
  that the calls leave is the concatenation of \<open>spec_pushed r\<close> over the recorded reductions
  \<open>r\<close> (descriptor, then row nonzeros, then column nonzeros), with the tags of the calls;
  every pop of the replay finds a value of the type it asks for, every \<open>undo\<close> is called
  with the descriptor and the nonzeros pushed for it (\<open>undo_recorded\<close>), and the cursor ends
  below the values of the last reduction replayed (at the bottom after \<open>undo\<close>).
\<close>

theorem replay_pops_inverse_of_pushes:
  assumes "reductions st0 = map tag_of rs0"
    and "data (reductionValues st0) = concat (map spec_pushed rs0)"
    and "record_calls st0 calls = Inr st"
    and "length (col_value solution) = length (origColIndex st)"
    and "length (row_value solution) = length (origRowIndex st)"
    and "expand (HighsBasisStatus_zero X) st (solution, basis) = Inr sb"
    and "k \<le> numReductions st"
  shows "\<exists>rs. map tag_of rs = map call_tag calls
           \<and> reductions st = map tag_of (rs0 @ rs)
           \<and> data (reductionValues st) = concat (map spec_pushed (rs0 @ rs))
           \<and> (\<exists>st'. undo X st solution basis feastol
                       = Inr (st', fold (undo_recorded X feastol) (rev (rs0 @ rs)) sb)
                  \<and> position (reductionValues st') = 0)
           \<and> (\<exists>st'. undoUntil X st solution basis feastol (int k)
                       = Inr (st', fold (undo_recorded X feastol) (rev (drop k (rs0 @ rs))) sb)
                  \<and> position (reductionValues st')
                      = length (concat (map spec_pushed (take k (rs0 @ rs)))))"
proof -
  from record_calls_recorded[OF assms(3)] obtain rs where rs:
    "map tag_of rs = map call_tag calls" "reductions st = reductions st0 @ map tag_of rs"
    "data (reductionValues st) = data (reductionValues st0) @ concat (map spec_pushed rs)"
    by blast
  have 1: "reductions st = map tag_of (rs0 @ rs)"
    and 2: "data (reductionValues st) = concat (map spec_pushed (rs0 @ rs))"
    using rs assms(1,2) by simp_all
  have k: "k \<le> length (rs0 @ rs)" using assms(7) 1 by (simp add: numReductions_def)
  have "\<exists>st'. undoUntil X st solution basis feastol (int 0)
                 = Inr (st', fold (undo_recorded X feastol) (rev (drop 0 (rs0 @ rs))) sb)
           \<and> position (reductionValues st') = length (concat (map spec_pushed (take 0 (rs0 @ rs))))
           \<and> data (reductionValues st') = data (reductionValues st)
           \<and> reductions st' = reductions st"
    using 1 2 assms(4,5,6) by (intro undoUntil_recorded) simp_all
  then have u: "\<exists>st'. undo X st solution basis feastol
                       = Inr (st', fold (undo_recorded X feastol) (rev (rs0 @ rs)) sb)
                  \<and> position (reductionValues st') = 0"
    by (auto simp: undo_eq_undoUntil)
  have "\<exists>st'. undoUntil X st solution basis feastol (int k)
                 = Inr (st', fold (undo_recorded X feastol) (rev (drop k (rs0 @ rs))) sb)
           \<and> position (reductionValues st') = length (concat (map spec_pushed (take k (rs0 @ rs))))
           \<and> data (reductionValues st') = data (reductionValues st)
           \<and> reductions st' = reductions st"
    using 1 2 assms(4,5,6) k by (intro undoUntil_recorded) simp_all
  then have "\<exists>st'. undoUntil X st solution basis feastol (int k)
                       = Inr (st', fold (undo_recorded X feastol) (rev (drop k (rs0 @ rs))) sb)
                  \<and> position (reductionValues st')
                      = length (concat (map spec_pushed (take k (rs0 @ rs))))"
    by blast
  with rs(1) 1 2 u show ?thesis by blast
qed

theorem replay_pops_inverse_of_pushes_witness:
  "record_calls sample_stack sample_calls = Inr sample_recorded
   \<and> expand (HighsBasisStatus_zero marking_external) sample_recorded
        (sample_solution, sample_basis) = Inr sample_expanded
   \<and> (\<exists>rs. map tag_of rs = map call_tag sample_calls
           \<and> reductions sample_recorded = map tag_of rs
           \<and> data (reductionValues sample_recorded) = concat (map spec_pushed rs)
           \<and> (\<exists>st'. undo marking_external sample_recorded sample_solution sample_basis (Finite 0)
                       = Inr (st', fold (undo_recorded marking_external (Finite 0)) (rev rs)
                                     sample_expanded)
                  \<and> position (reductionValues st') = 0)
           \<and> (\<exists>st'. undoUntil marking_external sample_recorded sample_solution sample_basis
                         (Finite 0) 2
                       = Inr (st', fold (undo_recorded marking_external (Finite 0))
                                     (rev (drop 2 rs)) sample_expanded)
                  \<and> position (reductionValues st')
                      = length (concat (map spec_pushed (take 2 rs)))))"
proof -
  have 1: "reductions sample_stack = map tag_of []"
    and 2: "data (reductionValues sample_stack) = concat (map spec_pushed [])"
    by (simp_all add: sample_defs)
  have 3: "record_calls sample_stack sample_calls = Inr sample_recorded"
    by code_simp
  have 4: "length (col_value sample_solution) = length (origColIndex sample_recorded)"
    and 5: "length (row_value sample_solution) = length (origRowIndex sample_recorded)"
    by (simp_all add: sample_defs)
  have 6: "expand (HighsBasisStatus_zero marking_external) sample_recorded
             (sample_solution, sample_basis) = Inr sample_expanded"
    by code_simp
  have 7: "2 \<le> numReductions sample_recorded"
    by (simp add: sample_defs numReductions_def)
  from replay_pops_inverse_of_pushes[OF 1 2 3 4 5 6 7, of "Finite 0"] 3 6
  show ?thesis by simp
qed

text \<open>
  C5: on any well-formed record (the stack holds the pushes of the recorded reductions, in
  order), also after further recording calls, for a solution that passes the two guards
  and is expanded, \<open>undoUntil\<close> with a checkpoint \<open>k\<close> between 0 and \<open>numReductions\<close> replays
  exactly the recorded reductions of index \<open>k\<close> and above, from the last index down to
  \<open>k\<close>; the record of tags is the same after the call; with checkpoint 0 \<open>undoUntil\<close> is
  \<open>undo\<close>; and \<open>numReductions\<close> is the same after every call of \<open>undoUntil\<close> that returns,
  whatever the solution and the checkpoint.
\<close>

theorem undoUntil_replays_from_checkpoint:
  assumes "reductions st0 = map tag_of rs0"
    and "data (reductionValues st0) = concat (map spec_pushed rs0)"
    and "record_calls st0 calls = Inr st"
    and "length (col_value solution) = length (origColIndex st)"
    and "length (row_value solution) = length (origRowIndex st)"
    and "expand (HighsBasisStatus_zero X) st (solution, basis) = Inr sb"
    and "k \<le> numReductions st"
  shows "(\<exists>rs st'.
           map tag_of rs = map call_tag calls
           \<and> reductions st = map tag_of (rs0 @ rs)
           \<and> data (reductionValues st) = concat (map spec_pushed (rs0 @ rs))
           \<and> undoUntil X st solution basis feastol (int k)
               = Inr (st', fold (undo_recorded X feastol)
                             (map ((!) (rs0 @ rs)) (rev [k..<numReductions st])) sb)
           \<and> numReductions st' = numReductions st
           \<and> reductions st' = reductions st)
         \<and> undoUntil X st solution basis feastol 0 = undo X st solution basis feastol
         \<and> (\<forall>solution1 basis1 j st1 sb1.
               undoUntil X st solution1 basis1 feastol j = Inr (st1, sb1)
               \<longrightarrow> numReductions st1 = numReductions st)"
proof -
  from record_calls_recorded[OF assms(3)] obtain rs where rs:
    "map tag_of rs = map call_tag calls" "reductions st = reductions st0 @ map tag_of rs"
    "data (reductionValues st) = data (reductionValues st0) @ concat (map spec_pushed rs)"
    by blast
  have 1: "reductions st = map tag_of (rs0 @ rs)"
    and 2: "data (reductionValues st) = concat (map spec_pushed (rs0 @ rs))"
    using rs assms(1,2) by simp_all
  have n: "numReductions st = length (rs0 @ rs)" using 1 by (simp add: numReductions_def)
  then have k: "k \<le> length (rs0 @ rs)" using assms(7) by simp
  obtain st' where st':
    "undoUntil X st solution basis feastol (int k)
       = Inr (st', fold (undo_recorded X feastol) (rev (drop k (rs0 @ rs))) sb)"
    "reductions st' = reductions st"
    using undoUntil_recorded[OF 1 2 assms(4,5,6) k, of feastol] by blast
  have "map ((!) (rs0 @ rs)) (rev [k..<numReductions st]) = rev (drop k (rs0 @ rs))"
    unfolding n by (simp only: rev_map[symmetric] map_nth_upt_drop)
  with st' rs(1) 1 2 have "\<exists>rs st'.
           map tag_of rs = map call_tag calls
           \<and> reductions st = map tag_of (rs0 @ rs)
           \<and> data (reductionValues st) = concat (map spec_pushed (rs0 @ rs))
           \<and> undoUntil X st solution basis feastol (int k)
               = Inr (st', fold (undo_recorded X feastol)
                             (map ((!) (rs0 @ rs)) (rev [k..<numReductions st])) sb)
           \<and> numReductions st' = numReductions st
           \<and> reductions st' = reductions st"
    by (intro exI[of _ rs] exI[of _ st']) (simp add: numReductions_def)
  moreover have "undoUntil X st solution basis feastol 0 = undo X st solution basis feastol"
    by (simp add: undo_eq_undoUntil)
  moreover have "\<forall>solution1 basis1 j st1 sb1.
               undoUntil X st solution1 basis1 feastol j = Inr (st1, sb1)
               \<longrightarrow> numReductions st1 = numReductions st"
    by (auto simp: numReductions_def dest: undoUntil_reductions)
  ultimately show ?thesis by blast
qed

theorem undoUntil_replays_from_checkpoint_witness:
  "(\<exists>rs st'.
      map tag_of rs = map call_tag [Call_singletonRow 0 0 (Finite 3) False True]
      \<and> reductions sample_later = map tag_of (sample_records @ rs)
      \<and> data (reductionValues sample_later) = concat (map spec_pushed (sample_records @ rs))
      \<and> undoUntil marking_external sample_later sample_later_solution sample_basis (Finite 0)
           (int 3)
          = Inr (st', fold (undo_recorded marking_external (Finite 0))
                        (map ((!) (sample_records @ rs)) (rev [3..<numReductions sample_later]))
                        sample_later_expanded)
      \<and> numReductions st' = numReductions sample_later
      \<and> reductions st' = reductions sample_later)
   \<and> undoUntil marking_external sample_later sample_later_solution sample_basis (Finite 0) 0
       = undo marking_external sample_later sample_later_solution sample_basis (Finite 0)"
proof -
  have 1: "reductions sample_compressed = map tag_of sample_records" by code_simp
  have 2: "data (reductionValues sample_compressed) = concat (map spec_pushed sample_records)"
    by code_simp
  have 3: "record_calls sample_compressed [Call_singletonRow 0 0 (Finite 3) False True]
           = Inr sample_later"
    by code_simp
  have 4: "length (col_value sample_later_solution) = length (origColIndex sample_later)"
    by code_simp
  have 5: "length (row_value sample_later_solution) = length (origRowIndex sample_later)"
    by code_simp
  have 6: "expand (HighsBasisStatus_zero marking_external) sample_later
             (sample_later_solution, sample_basis) = Inr sample_later_expanded"
    by code_simp
  have 7: "3 \<le> numReductions sample_later" by code_simp
  from undoUntil_replays_from_checkpoint[OF 1 2 3 4 5 6 7, of "Finite 0"]
  show ?thesis by blast
qed

text \<open>
  C10: \<open>undo\<close> and \<open>undoUntil\<close> reset the cursor of the value stack before anything else.
  Their result does not depend on where the cursor was, and a call that the guards reject
  returns the stack with the cursor at the top, and the solution and basis untouched.
\<close>

theorem undo_resets_cursor_first:
  "undo X (st\<lparr>reductionValues := (reductionValues st)\<lparr>position := p\<rparr>\<rparr>) solution basis feastol
     = undo X st solution basis feastol
   \<and> undoUntil X (st\<lparr>reductionValues := (reductionValues st)\<lparr>position := p\<rparr>\<rparr>) solution basis feastol k
     = undoUntil X st solution basis feastol k
   \<and> (length (col_value solution) \<noteq> length (origColIndex st)
        \<or> length (row_value solution) \<noteq> length (origRowIndex st) \<longrightarrow>
      undo X st solution basis feastol
        = Inr (st\<lparr>reductionValues :=
                    (reductionValues st)\<lparr>position := length (data (reductionValues st))\<rparr>\<rparr>,
               solution, basis)
      \<and> undoUntil X st solution basis feastol k
        = Inr (st\<lparr>reductionValues :=
                    (reductionValues st)\<lparr>position := length (data (reductionValues st))\<rparr>\<rparr>,
               solution, basis))"
  by (auto simp: undo_def undoUntil_def Let_def resetPosition_def)

theorem undo_resets_cursor_first_witness:
  "length (col_value \<lparr>col_value = [Finite 1], col_dual = [], row_value = [], row_dual = []\<rparr>)
     \<noteq> length (origColIndex sample_recorded)
   \<and> position (reductionValues sample_recorded) = 0
   \<and> undo marking_external sample_recorded
        \<lparr>col_value = [Finite 1], col_dual = [], row_value = [], row_dual = []\<rparr>
        sample_basis (Finite 0)
      = Inr (sample_recorded\<lparr>reductionValues := (reductionValues sample_recorded)\<lparr>position := 8\<rparr>\<rparr>,
             \<lparr>col_value = [Finite 1], col_dual = [], row_value = [], row_dual = []\<rparr>, sample_basis)
   \<and> undoUntil marking_external sample_recorded
        \<lparr>col_value = [Finite 1], col_dual = [], row_value = [], row_dual = []\<rparr>
        sample_basis (Finite 0) 2
      = Inr (sample_recorded\<lparr>reductionValues := (reductionValues sample_recorded)\<lparr>position := 8\<rparr>\<rparr>,
             \<lparr>col_value = [Finite 1], col_dual = [], row_value = [], row_dual = []\<rparr>, sample_basis)"
  using undo_resets_cursor_first[where X = marking_external and st = sample_recorded and p = 0
          and solution = "\<lparr>col_value = [Finite 1], col_dual = [], row_value = [], row_dual = []\<rparr>"
          and basis = sample_basis and feastol = "Finite 0" and k = 2]
  by (simp add: sample_defs)

text \<open>
  C6: in \<open>undo\<close> and \<open>undoUntil\<close>, on a solution that passes the two guards, the arrays
  \<open>col_dual\<close>, \<open>row_dual\<close>, \<open>col_status\<close> and \<open>row_status\<close> are expanded to the original
  dimensions exactly when \<open>col_dual\<close> has the length of \<open>col_value\<close> as passed in, before any
  resize: then all four get the original length and their entries move to the original
  indices; otherwise the four are left as they were and only \<open>col_value\<close> and \<open>row_value\<close> are
  expanded. The solution and basis so expanded are what the replay starts from, and are
  the result where nothing is replayed.
\<close>

theorem dual_expansion_iff_col_dual_length:
  assumes "index_map (origColIndex st) (origNumCol st)"
    and "index_map (origRowIndex st) (origNumRow st)"
    and "length (col_value solution) = length (origColIndex st)"
    and "length (row_value solution) = length (origRowIndex st)"
  shows "\<exists>solution' basis'.
           expand (HighsBasisStatus_zero X) st (solution, basis) = Inr (solution', basis')
           \<and> undo X st solution basis feastol
               = replay X feastol 0
                   (st\<lparr>reductionValues := resetPosition (reductionValues st)\<rparr>,
                    solution', basis')
           \<and> (\<forall>k. undoUntil X st solution basis feastol k
                    = replay X feastol k
                        (st\<lparr>reductionValues := resetPosition (reductionValues st)\<rparr>,
                         solution', basis'))
           \<and> (reductions st = [] \<longrightarrow>
                 undo X st solution basis feastol
                 = Inr (st\<lparr>reductionValues := resetPosition (reductionValues st)\<rparr>,
                        solution', basis'))
           \<and> undoUntil X st solution basis feastol (int (numReductions st))
               = Inr (st\<lparr>reductionValues := resetPosition (reductionValues st)\<rparr>,
                      solution', basis')
           \<and> length (col_value solution') = nat (origNumCol st)
           \<and> length (row_value solution') = nat (origNumRow st)
           \<and> (if length (col_dual solution) = length (col_value solution)
               then length (col_dual solution') = nat (origNumCol st)
                    \<and> length (col_status basis') = nat (origNumCol st)
                    \<and> length (row_dual solution') = nat (origNumRow st)
                    \<and> length (row_status basis') = nat (origNumRow st)
                    \<and> (\<forall>i<length (origColIndex st).
                          col_dual solution' ! nat (origColIndex st ! i) = col_dual solution ! i
                          \<and> col_status basis' ! nat (origColIndex st ! i)
                              = (if i < length (col_status basis) then col_status basis ! i
                                 else HighsBasisStatus_zero X))
                    \<and> (\<forall>i<length (origRowIndex st).
                          row_dual solution' ! nat (origRowIndex st ! i)
                            = (if i < length (row_dual solution) then row_dual solution ! i
                               else Finite 0)
                          \<and> row_status basis' ! nat (origRowIndex st ! i)
                              = (if i < length (row_status basis) then row_status basis ! i
                                 else HighsBasisStatus_zero X))
               else col_dual solution' = col_dual solution
                    \<and> row_dual solution' = row_dual solution
                    \<and> col_status basis' = col_status basis
                    \<and> row_status basis' = row_status basis)"
proof -
  let ?D = "\<lambda>solution' basis'.
       length (col_value solution') = nat (origNumCol st)
       \<and> length (row_value solution') = nat (origNumRow st)
       \<and> (if length (col_dual solution) = length (col_value solution)
           then length (col_dual solution') = nat (origNumCol st)
                \<and> length (col_status basis') = nat (origNumCol st)
                \<and> length (row_dual solution') = nat (origNumRow st)
                \<and> length (row_status basis') = nat (origNumRow st)
                \<and> (\<forall>i<length (origColIndex st).
                      col_dual solution' ! nat (origColIndex st ! i) = col_dual solution ! i
                      \<and> col_status basis' ! nat (origColIndex st ! i)
                          = (if i < length (col_status basis) then col_status basis ! i
                             else HighsBasisStatus_zero X))
                \<and> (\<forall>i<length (origRowIndex st).
                      row_dual solution' ! nat (origRowIndex st ! i)
                        = (if i < length (row_dual solution) then row_dual solution ! i
                           else Finite 0)
                      \<and> row_status basis' ! nat (origRowIndex st ! i)
                          = (if i < length (row_status basis) then row_status basis ! i
                             else HighsBasisStatus_zero X))
           else col_dual solution' = col_dual solution
                \<and> row_dual solution' = row_dual solution
                \<and> col_status basis' = col_status basis
                \<and> row_status basis' = row_status basis)"
  have "\<exists>solution' basis'.
           expand (HighsBasisStatus_zero X) st (solution, basis) = Inr (solution', basis')
           \<and> ?D solution' basis'"
    using assms by (simp add: expand_gather gather_padded_nth)
  then obtain solution' basis' where
    e: "expand (HighsBasisStatus_zero X) st (solution, basis) = Inr (solution', basis')"
    and d: "?D solution' basis'"
    by blast
  let ?st1 = "st\<lparr>reductionValues := resetPosition (reductionValues st)\<rparr>"
  have u: "undo X st solution basis feastol = replay X feastol 0 (?st1, solution', basis')"
    and uu: "\<forall>k. undoUntil X st solution basis feastol k
                  = replay X feastol k (?st1, solution', basis')"
    using undo_after_expand[OF assms(3,4) e] by simp_all
  have n: "reductions st = [] \<longrightarrow>
             undo X st solution basis feastol = Inr (?st1, solution', basis')"
    using u by (simp add: replay_past_end)
  have m: "undoUntil X st solution basis feastol (int (numReductions st))
           = Inr (?st1, solution', basis')"
    using uu by (simp add: replay_past_end numReductions_def)
  from e u uu n m d show ?thesis by blast
qed

theorem dual_expansion_iff_col_dual_length_witness:
  "\<exists>solution' basis'.
     expand (HighsBasisStatus_zero marking_external) sample_recorded
       (sample_dual_solution, sample_dual_basis) = Inr (solution', basis')
     \<and> undo marking_external sample_recorded sample_dual_solution sample_dual_basis (Finite 0)
         = replay marking_external (Finite 0) 0
             (sample_recorded
                \<lparr>reductionValues := resetPosition (reductionValues sample_recorded)\<rparr>,
              solution', basis')
     \<and> (\<forall>k. undoUntil marking_external sample_recorded sample_dual_solution
                sample_dual_basis (Finite 0) k
              = replay marking_external (Finite 0) k
                  (sample_recorded
                     \<lparr>reductionValues := resetPosition (reductionValues sample_recorded)\<rparr>,
                   solution', basis'))
     \<and> (reductions sample_recorded = [] \<longrightarrow>
           undo marking_external sample_recorded sample_dual_solution sample_dual_basis
             (Finite 0)
           = Inr (sample_recorded
                    \<lparr>reductionValues := resetPosition (reductionValues sample_recorded)\<rparr>,
                  solution', basis'))
     \<and> undoUntil marking_external sample_recorded sample_dual_solution sample_dual_basis
           (Finite 0) (int (numReductions sample_recorded))
         = Inr (sample_recorded
                  \<lparr>reductionValues := resetPosition (reductionValues sample_recorded)\<rparr>,
                solution', basis')
     \<and> length (col_value solution') = nat (origNumCol sample_recorded)
     \<and> length (row_value solution') = nat (origNumRow sample_recorded)
     \<and> (if length (col_dual sample_dual_solution) = length (col_value sample_dual_solution)
         then length (col_dual solution') = nat (origNumCol sample_recorded)
              \<and> length (col_status basis') = nat (origNumCol sample_recorded)
              \<and> length (row_dual solution') = nat (origNumRow sample_recorded)
              \<and> length (row_status basis') = nat (origNumRow sample_recorded)
              \<and> (\<forall>i<length (origColIndex sample_recorded).
                    col_dual solution' ! nat (origColIndex sample_recorded ! i)
                      = col_dual sample_dual_solution ! i
                    \<and> col_status basis' ! nat (origColIndex sample_recorded ! i)
                        = (if i < length (col_status sample_dual_basis)
                           then col_status sample_dual_basis ! i
                           else HighsBasisStatus_zero marking_external))
              \<and> (\<forall>i<length (origRowIndex sample_recorded).
                    row_dual solution' ! nat (origRowIndex sample_recorded ! i)
                      = (if i < length (row_dual sample_dual_solution)
                         then row_dual sample_dual_solution ! i else Finite 0)
                    \<and> row_status basis' ! nat (origRowIndex sample_recorded ! i)
                        = (if i < length (row_status sample_dual_basis)
                           then row_status sample_dual_basis ! i
                           else HighsBasisStatus_zero marking_external))
         else col_dual solution' = col_dual sample_dual_solution
              \<and> row_dual solution' = row_dual sample_dual_solution
              \<and> col_status basis' = col_status sample_dual_basis
              \<and> row_status basis' = row_status sample_dual_basis)"
proof (rule dual_expansion_iff_col_dual_length)
  show "index_map (origColIndex sample_recorded) (origNumCol sample_recorded)" by code_simp
  show "index_map (origRowIndex sample_recorded) (origNumRow sample_recorded)" by code_simp
  show "length (col_value sample_dual_solution) = length (origColIndex sample_recorded)"
    by code_simp
  show "length (row_value sample_dual_solution) = length (origRowIndex sample_recorded)"
    by code_simp
qed

text \<open>
  C7, as stated, fails: with nothing recorded and identity index maps, a solution whose
  \<open>col_dual\<close> has the length of \<open>col_value\<close> and a basis without statuses, \<open>undo\<close> resizes
  \<open>col_status\<close> to the original number of columns, so the basis is not what was passed.
\<close>

theorem identity_undo_changes_basis:
  "reductions (empty_stack [] [0] 0 1) = []
   \<and> origColIndex (empty_stack [] [0] 0 1) = map int [0..<nat (origNumCol (empty_stack [] [0] 0 1))]
   \<and> origRowIndex (empty_stack [] [0] 0 1) = map int [0..<nat (origNumRow (empty_stack [] [0] 0 1))]
   \<and> undo marking_external (empty_stack [] [0] 0 1)
        \<lparr>col_value = [Finite 1], col_dual = [Finite 2], row_value = [], row_dual = []\<rparr>
        \<lparr>col_status = [], row_status = []\<rparr> (Finite 0)
      = Inr (empty_stack [] [0] 0 1,
             \<lparr>col_value = [Finite 1], col_dual = [Finite 2], row_value = [], row_dual = []\<rparr>,
             \<lparr>col_status = [LOWER], row_status = []\<rparr>)
   \<and> \<lparr>col_status = [LOWER], row_status = []\<rparr> \<noteq> \<lparr>col_status = [], row_status = []\<rparr>"
  by code_simp

text \<open>
  C7, amended: with nothing recorded and identity index maps of the original dimensions,
  \<open>undo\<close> returns the solution and the basis as they were passed, provided that, whenever
  the guards pass and \<open>col_dual\<close> has the length of \<open>col_value\<close>, the arrays \<open>col_status\<close>,
  \<open>row_dual\<close> and \<open>row_status\<close> have the original lengths too.
\<close>

theorem identity_undo_unchanged:
  assumes "reductions st = []"
    and "0 \<le> origNumCol st" and "0 \<le> origNumRow st"
    and "origColIndex st = map int [0..<nat (origNumCol st)]"
    and "origRowIndex st = map int [0..<nat (origNumRow st)]"
    and "length (col_value solution) = nat (origNumCol st)
         \<and> length (row_value solution) = nat (origNumRow st)
         \<and> length (col_dual solution) = nat (origNumCol st)
         \<longrightarrow> length (col_status basis) = nat (origNumCol st)
             \<and> length (row_dual solution) = nat (origNumRow st)
             \<and> length (row_status basis) = nat (origNumRow st)"
  shows "\<exists>st'. undo X st solution basis feastol = Inr (st', solution, basis)"
proof (cases "length (col_value solution) = length (origColIndex st)
              \<and> length (row_value solution) = length (origRowIndex st)")
  case False
  then show ?thesis by (auto simp: undo_def Let_def)
next
  case True
  let ?st1 = "st\<lparr>reductionValues := resetPosition (reductionValues st)\<rparr>"
  have lc: "length (col_value solution) = nat (origNumCol st)"
    and lr: "length (row_value solution) = nat (origNumRow st)"
    using True assms(4,5) by simp_all
  have ic: "index_map (origColIndex st) (origNumCol st)"
    using index_map_identity[of "nat (origNumCol st)"] assms(2,4) by simp
  have ir: "index_map (origRowIndex st) (origNumRow st)"
    using index_map_identity[of "nat (origNumRow st)"] assms(3,5) by simp
  have "expand (HighsBasisStatus_zero X) st (solution, basis) = Inr (solution, basis)"
  proof (cases "length (col_dual solution) = length (col_value solution)")
    case dual: True
    then have l: "length (col_dual solution) = nat (origNumCol st)"
      "length (col_status basis) = nat (origNumCol st)"
      "length (row_dual solution) = nat (origNumRow st)"
      "length (row_status basis) = nat (origNumRow st)"
      using assms(6) lc lr by simp_all
    show ?thesis
      using dual lc lr l assms(4,5)
      by (simp add: expand_gather[OF ic ir] padded_same gather_identity_upt)
  next
    case False
    then show ?thesis
      using lc lr assms(4,5)
      by (simp add: expand_gather[OF ic ir] padded_same gather_identity_upt)
  qed
  then have "undo X st solution basis feastol = Inr (?st1, solution, basis)"
    using True assms(1) by (simp add: undo_def Let_def replay_nothing)
  then show ?thesis by blast
qed

theorem identity_undo_unchanged_witness:
  "\<exists>st'. undo marking_external (empty_stack [0] [0, 1] 1 2)
           \<lparr>col_value = [Finite 1, Finite 2], col_dual = [Finite 3, Finite 4],
             row_value = [Finite 5], row_dual = [Finite 6]\<rparr>
           \<lparr>col_status = [BASIC, LOWER], row_status = [UPPER]\<rparr> (Finite 0)
         = Inr (st', \<lparr>col_value = [Finite 1, Finite 2], col_dual = [Finite 3, Finite 4],
                       row_value = [Finite 5], row_dual = [Finite 6]\<rparr>,
                \<lparr>col_status = [BASIC, LOWER], row_status = [UPPER]\<rparr>)"
  by (rule identity_undo_unchanged) (simp_all add: empty_stack_def upt_rec)

text \<open>
  C2: every recording operation stores the row and column indices it is passed after
  sending them through \<open>origRowIndex\<close> and \<open>origColIndex\<close>, in the descriptor and in the
  nonzeros it pushes, whenever the indices are valid subscripts of the maps; the one
  exception is \<open>redundantRow\<close>, which stores the row index as it is passed.
\<close>

theorem recording_translates_indices:
  assumes "origRowIndex st = R" and "origColIndex st = C"
  shows
   "(valid_index R row \<and> valid_index C col \<and> valid_indices C rowVec \<and> valid_indices R colVec
       \<longrightarrow> (\<exists>st'. freeColSubstitution st row col rhs colCost rowType rowVec colVec = Inr st'
              \<and> data (reductionValues st') = data (reductionValues st) @
                  [PFreeColSubstitution
                     (FreeColSubstitution rhs colCost (R ! nat row) (C ! nat col) rowType),
                   PVector (translated C rowVec), PVector (translated R colVec)]))
    \<and> (valid_index R row \<and> valid_index C colSubst \<and> valid_index C col \<and> valid_indices R colVec
       \<longrightarrow> (\<exists>st'. doubletonEquation st row colSubst col coefSubst coef rhs substLower substUpper
                     oldLower oldUpper newLower newUpper substCost colVec = Inr st'
              \<and> data (reductionValues st') = data (reductionValues st) @
                  [PDoubletonEquation
                     (DoubletonEquation coef coefSubst rhs substLower substUpper substCost
                        (R ! nat row) (C ! nat colSubst) (C ! nat col)
                        (dless oldLower newLower) (dless newUpper oldUpper)),
                   PVector (translated R colVec)]))
    \<and> (valid_index R row \<and> valid_index R addedEqRow
       \<longrightarrow> (\<exists>st'. equalityRowAddition st row addedEqRow eqRowScale = Inr st'
              \<and> data (reductionValues st') = data (reductionValues st) @
                  [PEqualityRowAddition
                     (EqualityRowAddition (R ! nat row) (R ! nat addedEqRow) eqRowScale)]))
    \<and> (valid_index R row \<and> valid_index C col
       \<longrightarrow> (\<exists>st'. singletonRow st row col coef tightenedColLower tightenedColUpper = Inr st'
              \<and> data (reductionValues st') = data (reductionValues st) @
                  [PSingletonRow
                     (SingletonRow coef (R ! nat row) (C ! nat col)
                        tightenedColLower tightenedColUpper)]))
    \<and> (isfinite fixValue \<and> valid_index C col \<and> valid_indices R colVec
       \<longrightarrow> (\<exists>st'. fixedColAtLower st col fixValue colCost colVec = Inr st'
              \<and> data (reductionValues st') = data (reductionValues st) @
                  [PFixedCol (FixedCol fixValue colCost (C ! nat col) LOWER),
                   PVector (translated R colVec)])
           \<and> (\<exists>st'. fixedColAtUpper st col fixValue colCost colVec = Inr st'
              \<and> data (reductionValues st') = data (reductionValues st) @
                  [PFixedCol (FixedCol fixValue colCost (C ! nat col) UPPER),
                   PVector (translated R colVec)])
           \<and> (\<exists>st'. removedFixedCol st col fixValue colCost colVec = Inr st'
              \<and> data (reductionValues st') = data (reductionValues st) @
                  [PFixedCol (FixedCol fixValue colCost (C ! nat col) NONBASIC),
                   PVector (translated R colVec)]))
    \<and> (\<exists>st'. redundantRow st row = Inr st'
              \<and> data (reductionValues st') = data (reductionValues st) @
                  [PRedundantRow (RedundantRow row)])
    \<and> (valid_index R row \<and> valid_indices C rowVec
       \<longrightarrow> (\<exists>st'. forcingRow st row rowVec side rowType = Inr st'
              \<and> data (reductionValues st') = data (reductionValues st) @
                  [PForcingRow (ForcingRow side (R ! nat row) rowType),
                   PVector (translated C rowVec)]))
    \<and> (valid_index R row \<and> valid_index R duplicateRow'
       \<longrightarrow> (\<exists>st'. duplicateRow st row rowUpperTightened rowLowerTightened duplicateRow'
                     duplicateRowScale = Inr st'
              \<and> data (reductionValues st') = data (reductionValues st) @
                  [PDuplicateRow
                     (DuplicateRow duplicateRowScale (R ! nat duplicateRow') (R ! nat row)
                        rowLowerTightened rowUpperTightened)]))
    \<and> (valid_index C col \<and> valid_index C duplicateCol
       \<longrightarrow> (\<exists>st'. duplicateColumn st colScale colLower colUpper duplicateColLower
                     duplicateColUpper col duplicateCol colIntegral duplicateColIntegral = Inr st'
              \<and> data (reductionValues st') = data (reductionValues st) @
                  [PDuplicateColumn
                     (DuplicateColumn colScale colLower colUpper duplicateColLower
                        duplicateColUpper (C ! nat col) (C ! nat duplicateCol)
                        colIntegral duplicateColIntegral)]))"
proof -
  have 1: "valid_index R row \<and> valid_index C col \<and> valid_indices C rowVec \<and> valid_indices R colVec
       \<longrightarrow> (\<exists>st'. freeColSubstitution st row col rhs colCost rowType rowVec colVec = Inr st'
              \<and> data (reductionValues st') = data (reductionValues st) @
                  [PFreeColSubstitution
                     (FreeColSubstitution rhs colCost (R ! nat row) (C ! nat col) rowType),
                   PVector (translated C rowVec), PVector (translated R colVec)])"
    using assms
    by (simp add: freeColSubstitution_def translate_translated vec_at_valid push_def)
  have 2: "valid_index R row \<and> valid_index C colSubst \<and> valid_index C col \<and> valid_indices R colVec
       \<longrightarrow> (\<exists>st'. doubletonEquation st row colSubst col coefSubst coef rhs substLower substUpper
                     oldLower oldUpper newLower newUpper substCost colVec = Inr st'
              \<and> data (reductionValues st') = data (reductionValues st) @
                  [PDoubletonEquation
                     (DoubletonEquation coef coefSubst rhs substLower substUpper substCost
                        (R ! nat row) (C ! nat colSubst) (C ! nat col)
                        (dless oldLower newLower) (dless newUpper oldUpper)),
                   PVector (translated R colVec)])"
    using assms
    by (simp add: doubletonEquation_def translate_translated vec_at_valid push_def)
  have 3: "valid_index R row \<and> valid_index R addedEqRow
       \<longrightarrow> (\<exists>st'. equalityRowAddition st row addedEqRow eqRowScale = Inr st'
              \<and> data (reductionValues st') = data (reductionValues st) @
                  [PEqualityRowAddition
                     (EqualityRowAddition (R ! nat row) (R ! nat addedEqRow) eqRowScale)])"
    using assms by (simp add: equalityRowAddition_def vec_at_valid push_def)
  have 4: "valid_index R row \<and> valid_index C col
       \<longrightarrow> (\<exists>st'. singletonRow st row col coef tightenedColLower tightenedColUpper = Inr st'
              \<and> data (reductionValues st') = data (reductionValues st) @
                  [PSingletonRow
                     (SingletonRow coef (R ! nat row) (C ! nat col)
                        tightenedColLower tightenedColUpper)])"
    using assms by (simp add: singletonRow_def vec_at_valid push_def)
  have 5: "isfinite fixValue \<and> valid_index C col \<and> valid_indices R colVec
       \<longrightarrow> (\<exists>st'. fixedColAtLower st col fixValue colCost colVec = Inr st'
              \<and> data (reductionValues st') = data (reductionValues st) @
                  [PFixedCol (FixedCol fixValue colCost (C ! nat col) LOWER),
                   PVector (translated R colVec)])
           \<and> (\<exists>st'. fixedColAtUpper st col fixValue colCost colVec = Inr st'
              \<and> data (reductionValues st') = data (reductionValues st) @
                  [PFixedCol (FixedCol fixValue colCost (C ! nat col) UPPER),
                   PVector (translated R colVec)])
           \<and> (\<exists>st'. removedFixedCol st col fixValue colCost colVec = Inr st'
              \<and> data (reductionValues st') = data (reductionValues st) @
                  [PFixedCol (FixedCol fixValue colCost (C ! nat col) NONBASIC),
                   PVector (translated R colVec)])"
    using assms
    by (simp add: fixedColAtLower_def fixedColAtUpper_def removedFixedCol_def
          translate_translated vec_at_valid push_def)
  have 6: "\<exists>st'. redundantRow st row = Inr st'
              \<and> data (reductionValues st') = data (reductionValues st) @
                  [PRedundantRow (RedundantRow row)]"
    by (simp add: redundantRow_def push_def)
  have 7: "valid_index R row \<and> valid_indices C rowVec
       \<longrightarrow> (\<exists>st'. forcingRow st row rowVec side rowType = Inr st'
              \<and> data (reductionValues st') = data (reductionValues st) @
                  [PForcingRow (ForcingRow side (R ! nat row) rowType),
                   PVector (translated C rowVec)])"
    using assms by (simp add: forcingRow_def translate_translated vec_at_valid push_def)
  have 8: "valid_index R row \<and> valid_index R duplicateRow'
       \<longrightarrow> (\<exists>st'. duplicateRow st row rowUpperTightened rowLowerTightened duplicateRow'
                     duplicateRowScale = Inr st'
              \<and> data (reductionValues st') = data (reductionValues st) @
                  [PDuplicateRow
                     (DuplicateRow duplicateRowScale (R ! nat duplicateRow') (R ! nat row)
                        rowLowerTightened rowUpperTightened)])"
    using assms by (simp add: duplicateRow_def vec_at_valid push_def)
  have 9: "valid_index C col \<and> valid_index C duplicateCol
       \<longrightarrow> (\<exists>st'. duplicateColumn st colScale colLower colUpper duplicateColLower
                     duplicateColUpper col duplicateCol colIntegral duplicateColIntegral = Inr st'
              \<and> data (reductionValues st') = data (reductionValues st) @
                  [PDuplicateColumn
                     (DuplicateColumn colScale colLower colUpper duplicateColLower
                        duplicateColUpper (C ! nat col) (C ! nat duplicateCol)
                        colIntegral duplicateColIntegral)])"
    using assms by (simp add: duplicateColumn_def vec_at_valid push_def)
  from 1 2 3 4 5 6 7 8 9 show ?thesis by (intro conjI)
qed


theorem recording_translates_indices_witness:
  "(valid_index [0, 2] 1 \<and> valid_index [1, 3] 0 \<and> valid_index [1, 3] 1 \<and> valid_index [0, 2] 0
    \<and> valid_indices [1, 3] [(0, Finite 1), (1, Finite 2)] \<and> valid_indices [0, 2] [(1, Finite 1)]
    \<and> isfinite (Finite 7))
   \<and> (\<exists>st'. freeColSubstitution sample_stack 1 0 (Finite 4) (Finite 1) Eq
                [(0, Finite 1), (1, Finite 2)] [(1, Finite 1)] = Inr st'
          \<and> data (reductionValues st') =
              [PFreeColSubstitution (FreeColSubstitution (Finite 4) (Finite 1) 2 1 Eq),
               PVector [(1, Finite 1), (3, Finite 2)], PVector [(2, Finite 1)]])
   \<and> (\<exists>st'. doubletonEquation sample_stack 1 1 0 (Finite 2) (Finite 3) (Finite 4) (Finite 0)
                (Finite 9) (Finite 0) (Finite 9) (Finite 1) (Finite 9) (Finite 5)
                [(1, Finite 1)] = Inr st'
          \<and> data (reductionValues st') =
              [PDoubletonEquation
                 (DoubletonEquation (Finite 3) (Finite 2) (Finite 4) (Finite 0) (Finite 9)
                    (Finite 5) 2 3 1 True False),
               PVector [(2, Finite 1)]])
   \<and> (\<exists>st'. equalityRowAddition sample_stack 1 0 (Finite 2) = Inr st'
          \<and> data (reductionValues st') =
              [PEqualityRowAddition (EqualityRowAddition 2 0 (Finite 2))])
   \<and> (\<exists>st'. singletonRow sample_stack 1 0 (Finite 3) True False = Inr st'
          \<and> data (reductionValues st') = [PSingletonRow (SingletonRow (Finite 3) 2 1 True False)])
   \<and> (\<exists>st'. fixedColAtLower sample_stack 0 (Finite 7) (Finite 1) [(1, Finite 1)] = Inr st'
          \<and> data (reductionValues st') =
              [PFixedCol (FixedCol (Finite 7) (Finite 1) 1 LOWER), PVector [(2, Finite 1)]])
   \<and> (\<exists>st'. fixedColAtUpper sample_stack 0 (Finite 7) (Finite 1) [(1, Finite 1)] = Inr st'
          \<and> data (reductionValues st') =
              [PFixedCol (FixedCol (Finite 7) (Finite 1) 1 UPPER), PVector [(2, Finite 1)]])
   \<and> (\<exists>st'. removedFixedCol sample_stack 0 (Finite 7) (Finite 1) [(1, Finite 1)] = Inr st'
          \<and> data (reductionValues st') =
              [PFixedCol (FixedCol (Finite 7) (Finite 1) 1 NONBASIC), PVector [(2, Finite 1)]])
   \<and> (\<exists>st'. redundantRow sample_stack 1 = Inr st'
          \<and> data (reductionValues st') = [PRedundantRow (RedundantRow 1)])
   \<and> (\<exists>st'. forcingRow sample_stack 1 [(0, Finite 1), (1, Finite 2)] (Finite 6) Eq = Inr st'
          \<and> data (reductionValues st') =
              [PForcingRow (ForcingRow (Finite 6) 2 Eq), PVector [(1, Finite 1), (3, Finite 2)]])
   \<and> (\<exists>st'. duplicateRow sample_stack 1 True False 0 (Finite 2) = Inr st'
          \<and> data (reductionValues st') =
              [PDuplicateRow (DuplicateRow (Finite 2) 0 2 False True)])
   \<and> (\<exists>st'. duplicateColumn sample_stack (Finite 2) (Finite 0) (Finite 1) (Finite 0) (Finite 3)
                0 1 True False = Inr st'
          \<and> data (reductionValues st') =
              [PDuplicateColumn
                 (DuplicateColumn (Finite 2) (Finite 0) (Finite 1) (Finite 0) (Finite 3)
                    1 3 True False)])"
proof -
  have R: "origRowIndex sample_stack = [0, 2]" and C: "origColIndex sample_stack = [1, 3]"
    by (simp_all add: sample_defs)
  have v: "valid_index [0, 2] 1 \<and> valid_index [1, 3] 0 \<and> valid_index [1, 3] 1
    \<and> valid_index [0, 2] 0
    \<and> valid_indices [1, 3] [(0, Finite 1), (1, Finite 2)] \<and> valid_indices [0, 2] [(1, Finite 1)]
    \<and> isfinite (Finite 7)"
    by (simp add: valid_index_def valid_indices_def)
  have d: "data (reductionValues sample_stack) = []" by (simp add: sample_defs)
  show ?thesis
    using v
      recording_translates_indices[OF R C, where row = 1 and col = 0 and colSubst = 1
        and addedEqRow = 0 and duplicateRow' = 0 and duplicateCol = 1
        and rowVec = "[(0, Finite 1), (1, Finite 2)]" and colVec = "[(1, Finite 1)]"
        and rhs = "Finite 4" and colCost = "Finite 1" and rowType = Eq
        and coefSubst = "Finite 2" and coef = "Finite 3" and substLower = "Finite 0"
        and substUpper = "Finite 9" and oldLower = "Finite 0" and oldUpper = "Finite 9"
        and newLower = "Finite 1" and newUpper = "Finite 9" and substCost = "Finite 5"
        and eqRowScale = "Finite 2" and tightenedColLower = True and tightenedColUpper = False
        and fixValue = "Finite 7" and side = "Finite 6"
        and rowUpperTightened = True and rowLowerTightened = False
        and duplicateRowScale = "Finite 2" and colScale = "Finite 2" and colLower = "Finite 0"
        and colUpper = "Finite 1" and duplicateColLower = "Finite 0"
        and duplicateColUpper = "Finite 3" and colIntegral = True
        and duplicateColIntegral = False]
    by (simp add: d translated_def)
qed


text \<open>
  C8: \<open>duplicateRow\<close> stores \<open>origRowIndex[duplicateRow]\<close> in the field \<open>duplicateRow\<close> and
  \<open>origRowIndex[row]\<close> in the field \<open>row\<close>, and its arguments \<open>rowLowerTightened\<close> and
  \<open>rowUpperTightened\<close> in the fields of the same names, although \<open>rowUpperTightened\<close> comes
  first in the parameter list.
\<close>

theorem duplicateRow_fields:
  assumes "valid_index (origRowIndex st) row"
    and "valid_index (origRowIndex st) duplicateRow'"
  shows "\<exists>st' d.
           duplicateRow st row rowUpperTightened rowLowerTightened duplicateRow'
             duplicateRowScale = Inr st'
           \<and> data (reductionValues st') = data (reductionValues st) @ [PDuplicateRow d]
           \<and> DuplicateRow_duplicateRow d = origRowIndex st ! nat duplicateRow'
           \<and> DuplicateRow_row d = origRowIndex st ! nat row
           \<and> DuplicateRow_rowLowerTightened d = rowLowerTightened
           \<and> DuplicateRow_rowUpperTightened d = rowUpperTightened
           \<and> DuplicateRow_duplicateRowScale d = duplicateRowScale"
  using assms by (simp add: duplicateRow_def vec_at_valid push_def)

theorem duplicateRow_fields_witness:
  "\<exists>st' d.
     duplicateRow sample_stack 1 True False 0 (Finite 2) = Inr st'
     \<and> data (reductionValues st') = data (reductionValues sample_stack) @ [PDuplicateRow d]
     \<and> DuplicateRow_duplicateRow d = origRowIndex sample_stack ! nat 0
     \<and> DuplicateRow_row d = origRowIndex sample_stack ! nat 1
     \<and> DuplicateRow_rowLowerTightened d = False
     \<and> DuplicateRow_rowUpperTightened d = True
     \<and> DuplicateRow_duplicateRowScale d = Finite 2"
  by (rule duplicateRow_fields) (simp_all add: valid_index_def sample_defs)

text \<open>
  C9: \<open>fixedColAtLower\<close>, \<open>fixedColAtUpper\<close> and \<open>removedFixedCol\<close> assert that \<open>fixValue\<close> is
  finite. The assertion fails for every value that is not finite; for a finite value it
  holds, and with valid indices the operation pushes a \<open>FixedCol\<close> descriptor of type
  \<open>LOWER\<close>, \<open>UPPER\<close> or \<open>NONBASIC\<close> respectively, then the column nonzeros, and appends the
  tag \<open>kFixedCol\<close>.
\<close>

theorem fixedCol_asserts_finite:
  assumes "origRowIndex st = R" and "origColIndex st = C"
  shows
   "(\<not> isfinite fixValue \<longrightarrow>
        fixedColAtLower st col fixValue colCost colVec = Inl AssertionFailed
        \<and> fixedColAtUpper st col fixValue colCost colVec = Inl AssertionFailed
        \<and> removedFixedCol st col fixValue colCost colVec = Inl AssertionFailed)
    \<and> (isfinite fixValue \<longrightarrow>
        fixedColAtLower st col fixValue colCost colVec \<noteq> Inl AssertionFailed
        \<and> fixedColAtUpper st col fixValue colCost colVec \<noteq> Inl AssertionFailed
        \<and> removedFixedCol st col fixValue colCost colVec \<noteq> Inl AssertionFailed)
    \<and> (isfinite fixValue \<and> valid_index C col \<and> valid_indices R colVec \<longrightarrow>
        (\<exists>st'. fixedColAtLower st col fixValue colCost colVec = Inr st'
           \<and> data (reductionValues st') = data (reductionValues st) @
               [PFixedCol (FixedCol fixValue colCost (C ! nat col) LOWER),
                PVector (translated R colVec)]
           \<and> reductions st' = reductions st @ [kFixedCol])
        \<and> (\<exists>st'. fixedColAtUpper st col fixValue colCost colVec = Inr st'
           \<and> data (reductionValues st') = data (reductionValues st) @
               [PFixedCol (FixedCol fixValue colCost (C ! nat col) UPPER),
                PVector (translated R colVec)]
           \<and> reductions st' = reductions st @ [kFixedCol])
        \<and> (\<exists>st'. removedFixedCol st col fixValue colCost colVec = Inr st'
           \<and> data (reductionValues st') = data (reductionValues st) @
               [PFixedCol (FixedCol fixValue colCost (C ! nat col) NONBASIC),
                PVector (translated R colVec)]
           \<and> reductions st' = reductions st @ [kFixedCol]))"
proof -
  have 1: "\<not> isfinite fixValue \<longrightarrow>
        fixedColAtLower st col fixValue colCost colVec = Inl AssertionFailed
        \<and> fixedColAtUpper st col fixValue colCost colVec = Inl AssertionFailed
        \<and> removedFixedCol st col fixValue colCost colVec = Inl AssertionFailed"
    by (simp add: fixedColAtLower_def fixedColAtUpper_def removedFixedCol_def)
  have 2: "isfinite fixValue \<longrightarrow>
        fixedColAtLower st col fixValue colCost colVec \<noteq> Inl AssertionFailed
        \<and> fixedColAtUpper st col fixValue colCost colVec \<noteq> Inl AssertionFailed
        \<and> removedFixedCol st col fixValue colCost colVec \<noteq> Inl AssertionFailed"
    by (auto simp: fixedColAtLower_def fixedColAtUpper_def removedFixedCol_def bindE_eq_Inl
          dest: translate_Inl vec_at_Inl)
  have 3: "isfinite fixValue \<and> valid_index C col \<and> valid_indices R colVec \<longrightarrow>
        (\<exists>st'. fixedColAtLower st col fixValue colCost colVec = Inr st'
           \<and> data (reductionValues st') = data (reductionValues st) @
               [PFixedCol (FixedCol fixValue colCost (C ! nat col) LOWER),
                PVector (translated R colVec)]
           \<and> reductions st' = reductions st @ [kFixedCol])
        \<and> (\<exists>st'. fixedColAtUpper st col fixValue colCost colVec = Inr st'
           \<and> data (reductionValues st') = data (reductionValues st) @
               [PFixedCol (FixedCol fixValue colCost (C ! nat col) UPPER),
                PVector (translated R colVec)]
           \<and> reductions st' = reductions st @ [kFixedCol])
        \<and> (\<exists>st'. removedFixedCol st col fixValue colCost colVec = Inr st'
           \<and> data (reductionValues st') = data (reductionValues st) @
               [PFixedCol (FixedCol fixValue colCost (C ! nat col) NONBASIC),
                PVector (translated R colVec)]
           \<and> reductions st' = reductions st @ [kFixedCol])"
    using assms
    by (simp add: fixedColAtLower_def fixedColAtUpper_def removedFixedCol_def
          translate_translated vec_at_valid push_def)
  from 1 2 3 show ?thesis by (intro conjI)
qed

theorem fixedCol_asserts_finite_witness:
  "(\<not> isfinite PlusInf
    \<and> fixedColAtLower sample_stack 0 PlusInf (Finite 1) [(1, Finite 1)] = Inl AssertionFailed
    \<and> fixedColAtUpper sample_stack 0 PlusInf (Finite 1) [(1, Finite 1)] = Inl AssertionFailed
    \<and> removedFixedCol sample_stack 0 PlusInf (Finite 1) [(1, Finite 1)] = Inl AssertionFailed)
   \<and> (isfinite (Finite 7) \<and> valid_index [1, 3] 0 \<and> valid_indices [0, 2] [(1, Finite 1)]
    \<and> (\<exists>st'. fixedColAtLower sample_stack 0 (Finite 7) (Finite 1) [(1, Finite 1)] = Inr st'
           \<and> data (reductionValues st') =
               [PFixedCol (FixedCol (Finite 7) (Finite 1) 1 LOWER), PVector [(2, Finite 1)]]
           \<and> reductions st' = [kFixedCol])
    \<and> (\<exists>st'. fixedColAtUpper sample_stack 0 (Finite 7) (Finite 1) [(1, Finite 1)] = Inr st'
           \<and> data (reductionValues st') =
               [PFixedCol (FixedCol (Finite 7) (Finite 1) 1 UPPER), PVector [(2, Finite 1)]]
           \<and> reductions st' = [kFixedCol])
    \<and> (\<exists>st'. removedFixedCol sample_stack 0 (Finite 7) (Finite 1) [(1, Finite 1)] = Inr st'
           \<and> data (reductionValues st') =
               [PFixedCol (FixedCol (Finite 7) (Finite 1) 1 NONBASIC), PVector [(2, Finite 1)]]
           \<and> reductions st' = [kFixedCol]))"
proof -
  have R: "origRowIndex sample_stack = [0, 2]" and C: "origColIndex sample_stack = [1, 3]"
    by (simp_all add: sample_defs)
  have v: "\<not> isfinite PlusInf" "isfinite (Finite 7)" "valid_index [1, 3] 0"
    "valid_indices [0, 2] [(1, Finite 1)]"
    by (simp_all add: valid_index_def valid_indices_def)
  have d: "data (reductionValues sample_stack) = []" "reductions sample_stack = []"
    by (simp_all add: sample_defs)
  show ?thesis
    using v
      fixedCol_asserts_finite[OF R C, where fixValue = PlusInf and col = 0
        and colCost = "Finite 1" and colVec = "[(1, Finite 1)]"]
      fixedCol_asserts_finite[OF R C, where fixValue = "Finite 7" and col = 0
        and colCost = "Finite 1" and colVec = "[(1, Finite 1)]"]
    by (simp add: d translated_def)
qed

end
